theory Spec2Isabelle
  imports Main "HOL-Library.Monad_Syntax"
begin

section \<open>Fused kernels of the pipelined CG solver (host backend)\<close>

text \<open>
  This theory embeds \<^verbatim>\<open>viennacl/linalg/host_based/iterative_operations.hpp\<close>:
  the joint vector update \<^verbatim>\<open>pipelined_cg_vector_update\<close> and the five overloads of
  \<^verbatim>\<open>pipelined_cg_prod\<close> (compressed, coordinate, ELL, sliced ELL and hybrid matrices).

  Conventions of the embedding:
  \<^item> The numeric template parameter \<^verbatim>\<open>T\<close> is an arbitrary commutative ring with unit
    (exact arithmetic); rounding of floating point numbers is not modelled.
  \<^item> A buffer behind a raw pointer is a list. A read or write outside the list is
    undefined behaviour in C++; here it makes the kernel return \<open>None\<close>, so a kernel that
    returns \<open>Some\<close> has touched no index outside its buffers.
  \<^item> Index values (\<^verbatim>\<open>unsigned int\<close>, \<^verbatim>\<open>vcl_size_t\<close>) are natural numbers. The two
    loops that count in \<^verbatim>\<open>long\<close> convert their bound with \<open>static_cast_long\<close>.
  \<^item> A \<^verbatim>\<open>for\<close> loop over an index range is \<open>for_range\<close>, which threads the loop state
    through the body and stops at the first fault.
  \<^item> The arguments of a kernel are distinct objects: a list is a value, and aliasing between
    two arguments is not modelled.
  \<^item> Offsets are computed in \<^verbatim>\<open>vcl_size_t\<close> in the source. An offset inside a buffer is
    below \<open>2\<^sup>6\<^sup>4\<close>, so no wrap-around occurs where the kernel does not fault.
\<close>

subsection \<open>Raw buffers and loops\<close>

definition rd :: "'a list \<Rightarrow> nat \<Rightarrow> 'a option" where
  "rd xs i = (if i < length xs then Some (xs ! i) else None)"

definition wr :: "'a list \<Rightarrow> nat \<Rightarrow> 'a \<Rightarrow> 'a list option" where
  "wr xs i v = (if i < length xs then Some (xs[i := v]) else None)"

fun for_range :: "nat list \<Rightarrow> (nat \<Rightarrow> 's \<Rightarrow> 's option) \<Rightarrow> 's \<Rightarrow> 's option" where
  "for_range [] body s = Some s"
| "for_range (i # is) body s =
     (case body i s of None \<Rightarrow> None | Some s' \<Rightarrow> for_range is body s')"

text \<open>
  \<^verbatim>\<open>static_cast<long>(size)\<close> on a 64-bit \<^verbatim>\<open>vcl_size_t\<close>: the two's complement reading
  of the low 64 bits. \<open>long_range n\<close> lists the indices visited by
  \<^verbatim>\<open>for (long i = 0; i < static_cast<long>(n); ++i)\<close>.
\<close>

definition static_cast_long :: "nat \<Rightarrow> int" where
  "static_cast_long n =
     (let m = int n mod 2 ^ 64 in if m < 2 ^ 63 then m else m - 2 ^ 64)"

definition long_range :: "nat \<Rightarrow> nat list" where
  "long_range n = [0..<nat (static_cast_long n)]"

subsection \<open>The joint vector update\<close>

text \<open>
  The loop state is \<open>(result, p, r, inner_prod_r)\<close>. The body follows lines 82 to 92 of the
  source: both old values are loaded first, \<open>result\<close> is updated with the old \<open>p\<close>,
  then \<open>r\<close>, then \<open>p\<close> from the new \<open>r\<close> and the old \<open>p\<close>, then the running sum,
  and the two stores come last.
\<close>

definition vector_update_body ::
  "'a::comm_ring_1 \<Rightarrow> 'a list \<Rightarrow> 'a \<Rightarrow> nat \<Rightarrow>
   'a list \<times> 'a list \<times> 'a list \<times> 'a \<Rightarrow> ('a list \<times> 'a list \<times> 'a list \<times> 'a) option" where
  "vector_update_body alpha Ap beta i = (\<lambda>(result, p, r, inner_prod_r). do {
     value_p \<leftarrow> rd p i;
     value_r \<leftarrow> rd r i;
     old_result \<leftarrow> rd result i;
     result' \<leftarrow> wr result i (old_result + alpha * value_p);
     value_Ap \<leftarrow> rd Ap i;
     let value_r = value_r - alpha * value_Ap;
     let value_p = value_r + beta * value_p;
     let inner_prod_r = inner_prod_r + value_r * value_r;
     p' \<leftarrow> wr p i value_p;
     r' \<leftarrow> wr r i value_r;
     Some (result', p', r', inner_prod_r)
   })"

definition pipelined_cg_vector_update ::
  "'a::comm_ring_1 list \<Rightarrow> 'a \<Rightarrow> 'a list \<Rightarrow> 'a list \<Rightarrow> 'a list \<Rightarrow> 'a \<Rightarrow> 'a list \<Rightarrow>
   ('a list \<times> 'a list \<times> 'a list \<times> 'a list) option" where
  "pipelined_cg_vector_update result alpha p r Ap beta inner_prod_buffer = do {
     let size' = length result;
     (result', p', r', inner_prod_r) \<leftarrow>
       for_range (long_range size') (vector_update_body alpha Ap beta) (result, p, r, 0);
     data_buffer \<leftarrow> wr inner_prod_buffer 0 inner_prod_r;
     Some (result', p', r', data_buffer)
   }"

subsection \<open>Sparse matrix layouts\<close>

text \<open>
  The matrix classes are declared elsewhere in the library; a record holds exactly what the
  kernels read through the accessors of the same names. \<open>handle\<close> is always the array of
  values; the meaning of the index arrays is given with each format.
\<close>

record 'a compressed_matrix =
  cm_size1 :: nat
  cm_handle :: "'a list"  \<comment> \<open>\<^verbatim>\<open>elements\<close>\<close>
  cm_handle1 :: "nat list"  \<comment> \<open>\<^verbatim>\<open>row_buffer\<close>\<close>
  cm_handle2 :: "nat list"  \<comment> \<open>\<^verbatim>\<open>col_buffer\<close>\<close>

record 'a coordinate_matrix =
  coo_size1 :: nat
  coo_nnz :: nat
  coo_handle :: "'a list"  \<comment> \<open>\<^verbatim>\<open>elements\<close>\<close>
  coo_handle12 :: "nat list"  \<comment> \<open>\<^verbatim>\<open>coord_buffer\<close>: row at \<open>2 * i\<close>, column at \<open>2 * i + 1\<close>\<close>

record 'a ell_matrix =
  ell_size1 :: nat
  ell_internal_size1 :: nat
  ell_internal_maxnnz :: nat
  ell_handle :: "'a list"  \<comment> \<open>\<^verbatim>\<open>elements\<close>\<close>
  ell_handle2 :: "nat list"  \<comment> \<open>\<^verbatim>\<open>coords\<close>\<close>

record 'a sliced_ell_matrix =
  sell_size1 :: nat
  sell_rows_per_block :: nat
  sell_handle :: "'a list"  \<comment> \<open>\<^verbatim>\<open>elements\<close>\<close>
  sell_handle1 :: "nat list"  \<comment> \<open>\<^verbatim>\<open>columns_per_block\<close>\<close>
  sell_handle2 :: "nat list"  \<comment> \<open>\<^verbatim>\<open>column_indices\<close>\<close>
  sell_handle3 :: "nat list"  \<comment> \<open>\<^verbatim>\<open>block_start\<close>\<close>

record 'a hyb_matrix =
  hyb_size1 :: nat
  hyb_internal_size1 :: nat
  hyb_internal_ellnnz :: nat
  hyb_handle :: "'a list"  \<comment> \<open>\<^verbatim>\<open>elements\<close> of the ELL part\<close>
  hyb_handle2 :: "nat list"  \<comment> \<open>\<^verbatim>\<open>coords\<close> of the ELL part\<close>
  hyb_handle3 :: "nat list"  \<comment> \<open>\<^verbatim>\<open>csr_row_buffer\<close>\<close>
  hyb_handle4 :: "nat list"  \<comment> \<open>\<^verbatim>\<open>csr_col_buffer\<close>\<close>
  hyb_handle5 :: "'a list"  \<comment> \<open>\<^verbatim>\<open>csr_elements\<close>\<close>

subsection \<open>The fused matrix-vector products\<close>

text \<open>
  The state of every row loop is \<open>(Ap_buf, inner_prod_ApAp, inner_prod_pAp)\<close>. Each kernel
  returns the new \<open>Ap\<close> and the new reduction buffer.
\<close>

type_synonym 'a prod_state = "'a list \<times> 'a \<times> 'a"

definition compressed_row_body ::
  "'a::comm_ring_1 compressed_matrix \<Rightarrow> 'a list \<Rightarrow> nat \<Rightarrow> 'a prod_state \<Rightarrow> 'a prod_state option" where
  "compressed_row_body A p_buf row = (\<lambda>(Ap_buf, inner_prod_ApAp, inner_prod_pAp). do {
     val_p_diag \<leftarrow> rd p_buf row;
     row_end \<leftarrow> rd (cm_handle1 A) (row + 1);
     row_begin \<leftarrow> rd (cm_handle1 A) row;
     dot_prod \<leftarrow> for_range [row_begin..<row_end] (\<lambda>i dot_prod. do {
       e \<leftarrow> rd (cm_handle A) i;
       c \<leftarrow> rd (cm_handle2 A) i;
       x \<leftarrow> rd p_buf c;
       Some (dot_prod + e * x)
     }) 0;
     Ap_buf' \<leftarrow> wr Ap_buf row dot_prod;
     Some (Ap_buf', inner_prod_ApAp + dot_prod * dot_prod, inner_prod_pAp + val_p_diag * dot_prod)
   })"

definition pipelined_cg_prod_compressed ::
  "'a::comm_ring_1 compressed_matrix \<Rightarrow> 'a list \<Rightarrow> 'a list \<Rightarrow> 'a list \<Rightarrow> ('a list \<times> 'a list) option" where
  "pipelined_cg_prod_compressed A p Ap inner_prod_buffer = do {
     let buffer_size_per_vector = length inner_prod_buffer div 3;
     (Ap_buf, inner_prod_ApAp, inner_prod_pAp) \<leftarrow>
       for_range (long_range (cm_size1 A)) (compressed_row_body A p) (Ap, 0, 0);
     data_buffer \<leftarrow> wr inner_prod_buffer buffer_size_per_vector inner_prod_ApAp;
     data_buffer \<leftarrow> wr data_buffer (2 * buffer_size_per_vector) inner_prod_pAp;
     Some (Ap_buf, data_buffer)
   }"

text \<open>The coordinate kernel: flush, scatter, then a separate reduction pass.\<close>

definition coordinate_flush :: "'a::comm_ring_1 list \<Rightarrow> 'a list option" where
  "coordinate_flush Ap = for_range [0..<length Ap] (\<lambda>i Ap_buf. wr Ap_buf i 0) Ap"

definition coordinate_scatter ::
  "'a::comm_ring_1 coordinate_matrix \<Rightarrow> 'a list \<Rightarrow> 'a list \<Rightarrow> 'a list option" where
  "coordinate_scatter A p_buf Ap_buf =
     for_range [0..<coo_nnz A] (\<lambda>i Ap_buf. do {
       row \<leftarrow> rd (coo_handle12 A) (2 * i);
       old \<leftarrow> rd Ap_buf row;
       e \<leftarrow> rd (coo_handle A) i;
       col \<leftarrow> rd (coo_handle12 A) (2 * i + 1);
       x \<leftarrow> rd p_buf col;
       wr Ap_buf row (old + e * x)
     }) Ap_buf"

definition coordinate_reduce :: "'a::comm_ring_1 list \<Rightarrow> 'a list \<Rightarrow> ('a \<times> 'a) option" where
  "coordinate_reduce p_buf Ap_buf =
     for_range [0..<length Ap_buf] (\<lambda>i (inner_prod_ApAp, inner_prod_pAp). do {
       value_Ap \<leftarrow> rd Ap_buf i;
       value_p \<leftarrow> rd p_buf i;
       Some (inner_prod_ApAp + value_Ap * value_Ap, inner_prod_pAp + value_Ap * value_p)
     }) (0, 0)"

definition pipelined_cg_prod_coordinate ::
  "'a::comm_ring_1 coordinate_matrix \<Rightarrow> 'a list \<Rightarrow> 'a list \<Rightarrow> 'a list \<Rightarrow> ('a list \<times> 'a list) option" where
  "pipelined_cg_prod_coordinate A p Ap inner_prod_buffer = do {
     let buffer_size_per_vector = length inner_prod_buffer div 3;
     Ap_buf \<leftarrow> coordinate_flush Ap;
     Ap_buf \<leftarrow> coordinate_scatter A p Ap_buf;
     (inner_prod_ApAp, inner_prod_pAp) \<leftarrow> coordinate_reduce p Ap_buf;
     data_buffer \<leftarrow> wr inner_prod_buffer buffer_size_per_vector inner_prod_ApAp;
     data_buffer \<leftarrow> wr data_buffer (2 * buffer_size_per_vector) inner_prod_pAp;
     Some (Ap_buf, data_buffer)
   }"

text \<open>The ELL kernel: a slot is used only when its value is not zero.\<close>

definition ell_row_body ::
  "'a::comm_ring_1 ell_matrix \<Rightarrow> 'a list \<Rightarrow> nat \<Rightarrow> 'a prod_state \<Rightarrow> 'a prod_state option" where
  "ell_row_body A p_buf row = (\<lambda>(Ap_buf, inner_prod_ApAp, inner_prod_pAp). do {
     val_p_diag \<leftarrow> rd p_buf row;
     sum' \<leftarrow> for_range [0..<ell_internal_maxnnz A] (\<lambda>item_id sum'. do {
       let offset = row + item_id * ell_internal_size1 A;
       val \<leftarrow> rd (ell_handle A) offset;
       if val \<noteq> 0
       then do {
         c \<leftarrow> rd (ell_handle2 A) offset;
         x \<leftarrow> rd p_buf c;
         Some (sum' + x * val)
       }
       else Some sum'
     }) 0;
     Ap_buf' \<leftarrow> wr Ap_buf row sum';
     Some (Ap_buf', inner_prod_ApAp + sum' * sum', inner_prod_pAp + val_p_diag * sum')
   })"

definition pipelined_cg_prod_ell ::
  "'a::comm_ring_1 ell_matrix \<Rightarrow> 'a list \<Rightarrow> 'a list \<Rightarrow> 'a list \<Rightarrow> ('a list \<times> 'a list) option" where
  "pipelined_cg_prod_ell A p Ap inner_prod_buffer = do {
     let buffer_size_per_vector = length inner_prod_buffer div 3;
     (Ap_buf, inner_prod_ApAp, inner_prod_pAp) \<leftarrow>
       for_range [0..<ell_size1 A] (ell_row_body A p) (Ap, 0, 0);
     data_buffer \<leftarrow> wr inner_prod_buffer buffer_size_per_vector inner_prod_ApAp;
     data_buffer \<leftarrow> wr data_buffer (2 * buffer_size_per_vector) inner_prod_pAp;
     Some (Ap_buf, data_buffer)
   }"

text \<open>
  The sliced ELL kernel. The scratch vector \<open>result_values\<close> lives across the blocks and
  is part of the loop state. \<open>Ap_size\<close> is \<^verbatim>\<open>Ap.size()\<close>. The division by
  \<^verbatim>\<open>A.rows_per_block()\<close> is undefined for zero.
\<close>

definition sliced_ell_accumulate ::
  "'a::comm_ring_1 sliced_ell_matrix \<Rightarrow> 'a list \<Rightarrow> nat \<Rightarrow> nat \<Rightarrow> 'a list \<Rightarrow> 'a list option" where
  "sliced_ell_accumulate A p_buf block_idx current_columns_per_block result_values =
     for_range [0..<current_columns_per_block] (\<lambda>column_entry_index result_values. do {
       start \<leftarrow> rd (sell_handle3 A) block_idx;
       let stride_start = start + column_entry_index * sell_rows_per_block A;
       for_range [0..<sell_rows_per_block A] (\<lambda>row_in_block result_values. do {
         val \<leftarrow> rd (sell_handle A) (stride_start + row_in_block);
         old \<leftarrow> rd result_values row_in_block;
         contribution \<leftarrow>
           (if val \<noteq> 0
            then do {
              c \<leftarrow> rd (sell_handle2 A) (stride_start + row_in_block);
              x \<leftarrow> rd p_buf c;
              Some (x * val)
            }
            else Some 0);
         wr result_values row_in_block (old + contribution)
       }) result_values
     }) result_values"

definition sliced_ell_write_back ::
  "'a::comm_ring_1 sliced_ell_matrix \<Rightarrow> 'a list \<Rightarrow> nat \<Rightarrow> nat \<Rightarrow> 'a list \<Rightarrow>
   'a prod_state \<Rightarrow> 'a prod_state option" where
  "sliced_ell_write_back A p_buf Ap_size block_idx result_values =
     (let first_row_in_matrix = block_idx * sell_rows_per_block A in
      for_range [0..<sell_rows_per_block A]
        (\<lambda>row_in_block (Ap_buf, inner_prod_ApAp, inner_prod_pAp).
          let row = first_row_in_matrix + row_in_block in
          if row < Ap_size
          then do {
            row_result \<leftarrow> rd result_values row_in_block;
            Ap_buf' \<leftarrow> wr Ap_buf row row_result;
            val_p \<leftarrow> rd p_buf row;
            Some (Ap_buf', inner_prod_ApAp + row_result * row_result,
                  inner_prod_pAp + val_p * row_result)
          }
          else Some (Ap_buf, inner_prod_ApAp, inner_prod_pAp)))"

definition sliced_ell_block_body ::
  "'a::comm_ring_1 sliced_ell_matrix \<Rightarrow> 'a list \<Rightarrow> nat \<Rightarrow> nat \<Rightarrow>
   'a list \<times> 'a prod_state \<Rightarrow> ('a list \<times> 'a prod_state) option" where
  "sliced_ell_block_body A p_buf Ap_size block_idx = (\<lambda>(result_values, st). do {
     current_columns_per_block \<leftarrow> rd (sell_handle1 A) block_idx;
     result_values \<leftarrow>
       for_range [0..<length result_values] (\<lambda>i result_values. wr result_values i 0) result_values;
     result_values \<leftarrow>
       sliced_ell_accumulate A p_buf block_idx current_columns_per_block result_values;
     st' \<leftarrow> sliced_ell_write_back A p_buf Ap_size block_idx result_values st;
     Some (result_values, st')
   })"

definition pipelined_cg_prod_sliced_ell ::
  "'a::comm_ring_1 sliced_ell_matrix \<Rightarrow> 'a list \<Rightarrow> 'a list \<Rightarrow> 'a list \<Rightarrow> ('a list \<times> 'a list) option" where
  "pipelined_cg_prod_sliced_ell A p Ap inner_prod_buffer = do {
     let buffer_size_per_vector = length inner_prod_buffer div 3;
     if sell_rows_per_block A = 0 then None
     else do {
       let num_blocks = sell_size1 A div sell_rows_per_block A + 1;
       let result_values = replicate (sell_rows_per_block A) 0;
       (result_values, Ap_buf, inner_prod_ApAp, inner_prod_pAp) \<leftarrow>
         for_range [0..<num_blocks] (sliced_ell_block_body A p (length Ap))
           (result_values, Ap, 0, 0);
       data_buffer \<leftarrow> wr inner_prod_buffer buffer_size_per_vector inner_prod_ApAp;
       data_buffer \<leftarrow> wr data_buffer (2 * buffer_size_per_vector) inner_prod_pAp;
       Some (Ap_buf, data_buffer)
     }
   }"

text \<open>The hybrid kernel: the ELL part with the zero test, then the CSR overflow part.\<close>

definition hyb_row_body ::
  "'a::comm_ring_1 hyb_matrix \<Rightarrow> 'a list \<Rightarrow> nat \<Rightarrow> 'a prod_state \<Rightarrow> 'a prod_state option" where
  "hyb_row_body A p_buf row = (\<lambda>(Ap_buf, inner_prod_ApAp, inner_prod_pAp). do {
     val_p_diag \<leftarrow> rd p_buf row;
     sum' \<leftarrow> for_range [0..<hyb_internal_ellnnz A] (\<lambda>item_id sum'. do {
       let offset = row + item_id * hyb_internal_size1 A;
       val \<leftarrow> rd (hyb_handle A) offset;
       if val \<noteq> 0
       then do {
         c \<leftarrow> rd (hyb_handle2 A) offset;
         x \<leftarrow> rd p_buf c;
         Some (sum' + x * val)
       }
       else Some sum'
     }) 0;
     col_begin \<leftarrow> rd (hyb_handle3 A) row;
     col_end \<leftarrow> rd (hyb_handle3 A) (row + 1);
     sum' \<leftarrow> for_range [col_begin..<col_end] (\<lambda>item_id sum'. do {
       c \<leftarrow> rd (hyb_handle4 A) item_id;
       x \<leftarrow> rd p_buf c;
       e \<leftarrow> rd (hyb_handle5 A) item_id;
       Some (sum' + x * e)
     }) sum';
     Ap_buf' \<leftarrow> wr Ap_buf row sum';
     Some (Ap_buf', inner_prod_ApAp + sum' * sum', inner_prod_pAp + val_p_diag * sum')
   })"

definition pipelined_cg_prod_hyb ::
  "'a::comm_ring_1 hyb_matrix \<Rightarrow> 'a list \<Rightarrow> 'a list \<Rightarrow> 'a list \<Rightarrow> ('a list \<times> 'a list) option" where
  "pipelined_cg_prod_hyb A p Ap inner_prod_buffer = do {
     let buffer_size_per_vector = length inner_prod_buffer div 3;
     (Ap_buf, inner_prod_ApAp, inner_prod_pAp) \<leftarrow>
       for_range [0..<hyb_size1 A] (hyb_row_body A p) (Ap, 0, 0);
     data_buffer \<leftarrow> wr inner_prod_buffer buffer_size_per_vector inner_prod_ApAp;
     data_buffer \<leftarrow> wr data_buffer (2 * buffer_size_per_vector) inner_prod_pAp;
     Some (Ap_buf, data_buffer)
   }"

text \<open>Overload resolution on the matrix type.\<close>

datatype 'a sparse_matrix =
  Compressed "'a compressed_matrix"
  | Coordinate "'a coordinate_matrix"
  | Ell "'a ell_matrix"
  | Sliced_Ell "'a sliced_ell_matrix"
  | Hyb "'a hyb_matrix"

fun pipelined_cg_prod ::
  "'a::comm_ring_1 sparse_matrix \<Rightarrow> 'a list \<Rightarrow> 'a list \<Rightarrow> 'a list \<Rightarrow> ('a list \<times> 'a list) option" where
  "pipelined_cg_prod (Compressed A) p Ap buf = pipelined_cg_prod_compressed A p Ap buf"
| "pipelined_cg_prod (Coordinate A) p Ap buf = pipelined_cg_prod_coordinate A p Ap buf"
| "pipelined_cg_prod (Ell A) p Ap buf = pipelined_cg_prod_ell A p Ap buf"
| "pipelined_cg_prod (Sliced_Ell A) p Ap buf = pipelined_cg_prod_sliced_ell A p Ap buf"
| "pipelined_cg_prod (Hyb A) p Ap buf = pipelined_cg_prod_hyb A p Ap buf"

subsection \<open>Preconditions of the kernels\<close>

text \<open>
  The kernels check nothing; their callers guarantee that every index they form is inside
  its buffer. The predicates below say exactly that, per format, and no more: in
  particular the column index of an ELL slot is constrained only where the stored value
  is not zero. The reduction buffer has room for three slots of stride
  \<open>length buf div 3\<close>.
\<close>

definition wf_update :: "'a list \<Rightarrow> 'a list \<Rightarrow> 'a list \<Rightarrow> 'a list \<Rightarrow> 'a list \<Rightarrow> bool" where
  "wf_update result p r Ap buf \<longleftrightarrow>
     int (length result) < 2 ^ 63 \<and> length p = length result \<and> length r = length result \<and>
     length Ap = length result \<and> 1 \<le> length buf"

definition wf_compressed ::
  "'a::comm_ring_1 compressed_matrix \<Rightarrow> 'a list \<Rightarrow> 'a list \<Rightarrow> 'a list \<Rightarrow> bool" where
  "wf_compressed A p Ap buf \<longleftrightarrow>
     int (cm_size1 A) < 2 ^ 63 \<and> length Ap = cm_size1 A \<and> cm_size1 A \<le> length p \<and>
     3 \<le> length buf \<and>
     list_all (\<lambda>row.
       row + 1 < length (cm_handle1 A) \<and>
       list_all (\<lambda>i. i < length (cm_handle A) \<and> i < length (cm_handle2 A) \<and>
                      cm_handle2 A ! i < length p)
         [cm_handle1 A ! row..<cm_handle1 A ! (row + 1)])
       [0..<cm_size1 A]"

definition wf_coordinate ::
  "'a::comm_ring_1 coordinate_matrix \<Rightarrow> 'a list \<Rightarrow> 'a list \<Rightarrow> 'a list \<Rightarrow> bool" where
  "wf_coordinate A p Ap buf \<longleftrightarrow>
     length Ap = coo_size1 A \<and> coo_size1 A \<le> length p \<and> 3 \<le> length buf \<and>
     list_all (\<lambda>i.
       i < length (coo_handle A) \<and> 2 * i + 1 < length (coo_handle12 A) \<and>
       coo_handle12 A ! (2 * i) < coo_size1 A \<and> coo_handle12 A ! (2 * i + 1) < length p)
       [0..<coo_nnz A]"

definition wf_ell ::
  "'a::comm_ring_1 ell_matrix \<Rightarrow> 'a list \<Rightarrow> 'a list \<Rightarrow> 'a list \<Rightarrow> bool" where
  "wf_ell A p Ap buf \<longleftrightarrow>
     length Ap = ell_size1 A \<and> ell_size1 A \<le> length p \<and> 3 \<le> length buf \<and>
     list_all (\<lambda>row. list_all (\<lambda>item_id.
       let offset = row + item_id * ell_internal_size1 A in
       offset < length (ell_handle A) \<and>
       (ell_handle A ! offset \<noteq> 0 \<longrightarrow>
          offset < length (ell_handle2 A) \<and> ell_handle2 A ! offset < length p))
       [0..<ell_internal_maxnnz A]) [0..<ell_size1 A]"

definition wf_sliced_ell ::
  "'a::comm_ring_1 sliced_ell_matrix \<Rightarrow> 'a list \<Rightarrow> 'a list \<Rightarrow> 'a list \<Rightarrow> bool" where
  "wf_sliced_ell A p Ap buf \<longleftrightarrow>
     0 < sell_rows_per_block A \<and>
     length Ap = sell_size1 A \<and> sell_size1 A \<le> length p \<and> 3 \<le> length buf \<and>
     list_all (\<lambda>block_idx.
       block_idx < length (sell_handle1 A) \<and>
       list_all (\<lambda>column_entry_index.
         block_idx < length (sell_handle3 A) \<and>
         list_all (\<lambda>row_in_block.
           let offset = sell_handle3 A ! block_idx
                          + column_entry_index * sell_rows_per_block A + row_in_block in
           offset < length (sell_handle A) \<and>
           (sell_handle A ! offset \<noteq> 0 \<longrightarrow>
              offset < length (sell_handle2 A) \<and> sell_handle2 A ! offset < length p))
           [0..<sell_rows_per_block A])
         [0..<sell_handle1 A ! block_idx])
       [0..<sell_size1 A div sell_rows_per_block A + 1]"

definition wf_hyb ::
  "'a::comm_ring_1 hyb_matrix \<Rightarrow> 'a list \<Rightarrow> 'a list \<Rightarrow> 'a list \<Rightarrow> bool" where
  "wf_hyb A p Ap buf \<longleftrightarrow>
     length Ap = hyb_size1 A \<and> hyb_size1 A \<le> length p \<and> 3 \<le> length buf \<and>
     list_all (\<lambda>row.
       list_all (\<lambda>item_id.
         let offset = row + item_id * hyb_internal_size1 A in
         offset < length (hyb_handle A) \<and>
         (hyb_handle A ! offset \<noteq> 0 \<longrightarrow>
            offset < length (hyb_handle2 A) \<and> hyb_handle2 A ! offset < length p))
         [0..<hyb_internal_ellnnz A] \<and>
       row + 1 < length (hyb_handle3 A) \<and>
       list_all (\<lambda>i. i < length (hyb_handle4 A) \<and> i < length (hyb_handle5 A) \<and>
                      hyb_handle4 A ! i < length p)
         [hyb_handle3 A ! row..<hyb_handle3 A ! (row + 1)])
       [0..<hyb_size1 A]"

fun wf_prod :: "'a::comm_ring_1 sparse_matrix \<Rightarrow> 'a list \<Rightarrow> 'a list \<Rightarrow> 'a list \<Rightarrow> bool" where
  "wf_prod (Compressed A) p Ap buf = wf_compressed A p Ap buf"
| "wf_prod (Coordinate A) p Ap buf = wf_coordinate A p Ap buf"
| "wf_prod (Ell A) p Ap buf = wf_ell A p Ap buf"
| "wf_prod (Sliced_Ell A) p Ap buf = wf_sliced_ell A p Ap buf"
| "wf_prod (Hyb A) p Ap buf = wf_hyb A p Ap buf"

fun size1 :: "'a sparse_matrix \<Rightarrow> nat" where
  "size1 (Compressed A) = cm_size1 A"
| "size1 (Coordinate A) = coo_size1 A"
| "size1 (Ell A) = ell_size1 A"
| "size1 (Sliced_Ell A) = sell_size1 A"
| "size1 (Hyb A) = hyb_size1 A"

subsection \<open>The matrix a layout denotes\<close>

text \<open>
  \<open>row_entries A row\<close> lists the stored \<open>(column, value)\<close> pairs of a row, in storage
  order. In the zero-padded layouts a slot holding the value zero is no entry. The
  logical matrix adds up the stored values of a position.
\<close>

definition compressed_row_entries :: "'a compressed_matrix \<Rightarrow> nat \<Rightarrow> (nat \<times> 'a) list" where
  "compressed_row_entries A row =
     map (\<lambda>i. (cm_handle2 A ! i, cm_handle A ! i))
       [cm_handle1 A ! row..<cm_handle1 A ! (row + 1)]"

definition coordinate_row_entries :: "'a coordinate_matrix \<Rightarrow> nat \<Rightarrow> (nat \<times> 'a) list" where
  "coordinate_row_entries A row =
     map (\<lambda>i. (coo_handle12 A ! (2 * i + 1), coo_handle A ! i))
       (filter (\<lambda>i. coo_handle12 A ! (2 * i) = row) [0..<coo_nnz A])"

definition ell_row_entries :: "'a::zero ell_matrix \<Rightarrow> nat \<Rightarrow> (nat \<times> 'a) list" where
  "ell_row_entries A row =
     map (\<lambda>offset. (ell_handle2 A ! offset, ell_handle A ! offset))
       (filter (\<lambda>offset. ell_handle A ! offset \<noteq> 0)
         (map (\<lambda>item_id. row + item_id * ell_internal_size1 A) [0..<ell_internal_maxnnz A]))"

definition sliced_ell_row_entries :: "'a::zero sliced_ell_matrix \<Rightarrow> nat \<Rightarrow> (nat \<times> 'a) list" where
  "sliced_ell_row_entries A row =
     (let block_idx = row div sell_rows_per_block A;
          row_in_block = row mod sell_rows_per_block A in
      map (\<lambda>offset. (sell_handle2 A ! offset, sell_handle A ! offset))
        (filter (\<lambda>offset. sell_handle A ! offset \<noteq> 0)
          (map (\<lambda>column_entry_index.
                 sell_handle3 A ! block_idx + column_entry_index * sell_rows_per_block A
                   + row_in_block)
            [0..<sell_handle1 A ! block_idx])))"

definition hyb_row_entries :: "'a::zero hyb_matrix \<Rightarrow> nat \<Rightarrow> (nat \<times> 'a) list" where
  "hyb_row_entries A row =
     map (\<lambda>offset. (hyb_handle2 A ! offset, hyb_handle A ! offset))
       (filter (\<lambda>offset. hyb_handle A ! offset \<noteq> 0)
         (map (\<lambda>item_id. row + item_id * hyb_internal_size1 A) [0..<hyb_internal_ellnnz A]))
     @ map (\<lambda>i. (hyb_handle4 A ! i, hyb_handle5 A ! i))
         [hyb_handle3 A ! row..<hyb_handle3 A ! (row + 1)]"

fun row_entries :: "'a::zero sparse_matrix \<Rightarrow> nat \<Rightarrow> (nat \<times> 'a) list" where
  "row_entries (Compressed A) row = compressed_row_entries A row"
| "row_entries (Coordinate A) row = coordinate_row_entries A row"
| "row_entries (Ell A) row = ell_row_entries A row"
| "row_entries (Sliced_Ell A) row = sliced_ell_row_entries A row"
| "row_entries (Hyb A) row = hyb_row_entries A row"

definition entry :: "'a::comm_ring_1 sparse_matrix \<Rightarrow> nat \<Rightarrow> nat \<Rightarrow> 'a" where
  "entry A row col = sum_list (map snd (filter (\<lambda>e. fst e = col) (row_entries A row)))"

definition spmv_row :: "(nat \<times> 'a::comm_ring_1) list \<Rightarrow> 'a list \<Rightarrow> 'a" where
  "spmv_row es p = sum_list (map (\<lambda>e. snd e * p ! fst e) es)"

definition spmv :: "'a::comm_ring_1 sparse_matrix \<Rightarrow> 'a list \<Rightarrow> 'a list" where
  "spmv A p = map (\<lambda>row. spmv_row (row_entries A row) p) [0..<size1 A]"

definition sum_squares :: "'a::comm_ring_1 list \<Rightarrow> 'a" where
  "sum_squares Ap = sum_list (map (\<lambda>row. Ap ! row * Ap ! row) [0..<length Ap])"

definition sum_p_Ap :: "'a::comm_ring_1 list \<Rightarrow> 'a list \<Rightarrow> 'a" where
  "sum_p_Ap p Ap = sum_list (map (\<lambda>row. p ! row * Ap ! row) [0..<length Ap])"

definition inner_prod :: "'a::comm_ring_1 list \<Rightarrow> 'a list \<Rightarrow> 'a" where
  "inner_prod x y = sum_list (map2 (*) x y)"

subsection \<open>Loop invariants\<close>

text \<open>
  The states the loops pass through, used in the proofs: \<open>rows_done f p Ap n\<close> is the
  state of a row loop after \<open>n\<close> rows when row \<open>i\<close> gets the value \<open>f i\<close>;
  \<open>scattered A p n k\<close> is \<open>Ap\<close> after the first \<open>k\<close> coordinate entries;
  \<open>sliced_ell_block_values A p block_idx n\<close> is the scratch vector of a block after
  \<open>n\<close> column slots; \<open>update_done\<close> is the state of the vector update after
  \<open>n\<close> elements.
\<close>

definition rows_done :: "(nat \<Rightarrow> 'a::comm_ring_1) \<Rightarrow> 'a list \<Rightarrow> 'a list \<Rightarrow> nat \<Rightarrow> 'a prod_state" where
  "rows_done f p Ap n =
     (map f [0..<n] @ drop n Ap,
      sum_list (map (\<lambda>row. f row * f row) [0..<n]),
      sum_list (map (\<lambda>row. p ! row * f row) [0..<n]))"

definition scattered :: "'a::comm_ring_1 coordinate_matrix \<Rightarrow> 'a list \<Rightarrow> nat \<Rightarrow> nat \<Rightarrow> 'a list" where
  "scattered A p n k =
     map (\<lambda>row. spmv_row (map (\<lambda>i. (coo_handle12 A ! (2 * i + 1), coo_handle A ! i))
            (filter (\<lambda>i. coo_handle12 A ! (2 * i) = row) [0..<k])) p) [0..<n]"

definition sliced_ell_slot :: "'a::comm_ring_1 sliced_ell_matrix \<Rightarrow> 'a list \<Rightarrow> nat \<Rightarrow> nat \<Rightarrow> nat \<Rightarrow> 'a" where
  "sliced_ell_slot A p block_idx column_entry_index row_in_block =
     (let offset = sell_handle3 A ! block_idx + column_entry_index * sell_rows_per_block A
                     + row_in_block in
      if sell_handle A ! offset \<noteq> 0
      then p ! (sell_handle2 A ! offset) * sell_handle A ! offset else 0)"

definition sliced_ell_block_values :: "'a::comm_ring_1 sliced_ell_matrix \<Rightarrow> 'a list \<Rightarrow> nat \<Rightarrow> nat \<Rightarrow> 'a list" where
  "sliced_ell_block_values A p block_idx n =
     map (\<lambda>row_in_block. sum_list (map (\<lambda>c. sliced_ell_slot A p block_idx c row_in_block) [0..<n]))
       [0..<sell_rows_per_block A]"

definition update_done ::
  "'a::comm_ring_1 list \<Rightarrow> 'a \<Rightarrow> 'a list \<Rightarrow> 'a list \<Rightarrow> 'a list \<Rightarrow> 'a \<Rightarrow> nat \<Rightarrow>
   'a list \<times> 'a list \<times> 'a list \<times> 'a" where
  "update_done result alpha p r Ap beta n =
     (map (\<lambda>i. result ! i + alpha * p ! i) [0..<n] @ drop n result,
      map (\<lambda>i. (r ! i - alpha * Ap ! i) + beta * p ! i) [0..<n] @ drop n p,
      map (\<lambda>i. r ! i - alpha * Ap ! i) [0..<n] @ drop n r,
      sum_list (map (\<lambda>i. (r ! i - alpha * Ap ! i) * (r ! i - alpha * Ap ! i)) [0..<n]))"

subsection \<open>Predicates of the claims\<close>

text \<open>
  Two matrices denote the same logical matrix on \<open>n\<close> columns when they have the same
  number of rows and the same entry at every position.
\<close>

definition same_matrix :: "'a::comm_ring_1 sparse_matrix \<Rightarrow> 'a sparse_matrix \<Rightarrow> nat \<Rightarrow> bool" where
  "same_matrix A1 A2 n \<longleftrightarrow>
     size1 A1 = size1 A2 \<and>
     list_all (\<lambda>row. list_all (\<lambda>col. entry A1 row col = entry A2 row col) [0..<n])
       [0..<size1 A1]"

text \<open>
  Every slot of an ELL matrix, or of both parts of a hybrid matrix, holds zero (and lies
  inside the array of values).
\<close>

definition ell_slots_zero :: "'a::comm_ring_1 ell_matrix \<Rightarrow> bool" where
  "ell_slots_zero A \<longleftrightarrow>
     list_all (\<lambda>row. list_all (\<lambda>item_id.
       let offset = row + item_id * ell_internal_size1 A in
       offset < length (ell_handle A) \<and> ell_handle A ! offset = 0)
       [0..<ell_internal_maxnnz A]) [0..<ell_size1 A]"

definition hyb_slots_zero :: "'a::comm_ring_1 hyb_matrix \<Rightarrow> bool" where
  "hyb_slots_zero A \<longleftrightarrow>
     list_all (\<lambda>row.
       list_all (\<lambda>item_id.
         let offset = row + item_id * hyb_internal_size1 A in
         offset < length (hyb_handle A) \<and> hyb_handle A ! offset = 0)
         [0..<hyb_internal_ellnnz A] \<and>
       list_all (\<lambda>i. hyb_handle5 A ! i = 0) [hyb_handle3 A ! row..<hyb_handle3 A ! (row + 1)])
       [0..<hyb_size1 A]"

text \<open>
  Another array of column indices agrees with the one of the matrix at every slot whose
  value is not zero; at the slots holding zero it may hold anything, or end early.
\<close>

definition ell_coords_agree :: "'a::comm_ring_1 ell_matrix \<Rightarrow> nat list \<Rightarrow> bool" where
  "ell_coords_agree A coords' \<longleftrightarrow>
     list_all (\<lambda>row. list_all (\<lambda>item_id.
       let offset = row + item_id * ell_internal_size1 A in
       ell_handle A ! offset \<noteq> 0 \<longrightarrow> rd coords' offset = rd (ell_handle2 A) offset)
       [0..<ell_internal_maxnnz A]) [0..<ell_size1 A]"

definition hyb_coords_agree :: "'a::comm_ring_1 hyb_matrix \<Rightarrow> nat list \<Rightarrow> bool" where
  "hyb_coords_agree A coords' \<longleftrightarrow>
     list_all (\<lambda>row. list_all (\<lambda>item_id.
       let offset = row + item_id * hyb_internal_size1 A in
       hyb_handle A ! offset \<noteq> 0 \<longrightarrow> rd coords' offset = rd (hyb_handle2 A) offset)
       [0..<hyb_internal_ellnnz A]) [0..<hyb_size1 A]"

subsection \<open>Example matrices\<close>

text \<open>
  The matrix with the rows \<open>(1, 0, 3)\<close>, \<open>(0, 0, 4)\<close>, \<open>(5, 6, 7)\<close> in the five
  layouts. The coordinate entries are unordered. The padding slots of the ELL layouts hold
  the value 0 and the column index 99, which is outside every vector used with them. The
  sliced ELL matrix has two rows per block, so its second block has one row beyond the
  matrix; the slots of that row hold the value 9. The hybrid matrix keeps two entries per
  row in its ELL part and the third entry of the last row in its overflow part.
\<close>

definition example_compressed :: "int compressed_matrix" where
  "example_compressed =
     \<lparr>cm_size1 = 3, cm_handle = [1, 3, 4, 5, 6, 7], cm_handle1 = [0, 2, 3, 6],
      cm_handle2 = [0, 2, 2, 0, 1, 2]\<rparr>"

definition example_coordinate :: "int coordinate_matrix" where
  "example_coordinate =
     \<lparr>coo_size1 = 3, coo_nnz = 6, coo_handle = [6, 1, 4, 5, 3, 7],
      coo_handle12 = [2, 1, 0, 0, 1, 2, 2, 0, 0, 2, 2, 2]\<rparr>"

definition example_ell :: "int ell_matrix" where
  "example_ell =
     \<lparr>ell_size1 = 3, ell_internal_size1 = 4, ell_internal_maxnnz = 3,
      ell_handle = [1, 4, 5, 0, 3, 0, 6, 0, 0, 0, 7, 0],
      ell_handle2 = [0, 2, 0, 99, 2, 99, 1, 99, 99, 99, 2, 99]\<rparr>"

definition example_sliced_ell :: "int sliced_ell_matrix" where
  "example_sliced_ell =
     \<lparr>sell_size1 = 3, sell_rows_per_block = 2,
      sell_handle = [1, 4, 3, 0, 5, 9, 6, 9, 7, 9],
      sell_handle1 = [2, 3],
      sell_handle2 = [0, 2, 2, 99, 0, 0, 1, 1, 2, 2],
      sell_handle3 = [0, 4]\<rparr>"

definition example_hyb :: "int hyb_matrix" where
  "example_hyb =
     \<lparr>hyb_size1 = 3, hyb_internal_size1 = 3, hyb_internal_ellnnz = 2,
      hyb_handle = [1, 4, 5, 3, 0, 6], hyb_handle2 = [0, 2, 0, 2, 99, 1],
      hyb_handle3 = [0, 0, 0, 1], hyb_handle4 = [2], hyb_handle5 = [7]\<rparr>"

text \<open>
  The matrix with the rows \<open>(1, 3)\<close>, \<open>(0, 4)\<close> as a sliced ELL matrix with two rows
  per block: the row count is a multiple of the block height, the extra block has the width
  0, and \<open>block_start\<close> has an entry for the first block only.
\<close>

definition example_sliced_ell_exact :: "int sliced_ell_matrix" where
  "example_sliced_ell_exact =
     \<lparr>sell_size1 = 2, sell_rows_per_block = 2,
      sell_handle = [1, 4, 3, 0],
      sell_handle1 = [2, 0],
      sell_handle2 = [0, 1, 1, 99],
      sell_handle3 = [0]\<rparr>"

text \<open>
  Matrices all of whose slots hold zero, with column indices outside the vector in the
  ELL slots. The overflow part of the hybrid one has a zero entry in column 1 of row 0.
\<close>

definition example_ell_zero :: "int ell_matrix" where
  "example_ell_zero =
     \<lparr>ell_size1 = 2, ell_internal_size1 = 2, ell_internal_maxnnz = 2,
      ell_handle = [0, 0, 0, 0], ell_handle2 = [77, 88, 99, 66]\<rparr>"

definition example_hyb_zero :: "int hyb_matrix" where
  "example_hyb_zero =
     \<lparr>hyb_size1 = 2, hyb_internal_size1 = 2, hyb_internal_ellnnz = 1,
      hyb_handle = [0, 0], hyb_handle2 = [77, 88],
      hyb_handle3 = [0, 1, 1], hyb_handle4 = [1], hyb_handle5 = [0]\<rparr>"

section \<open>Properties of the kernels\<close>

subsection \<open>Buffers, loops and sums\<close>

lemma rd_in_range: "i < length xs \<Longrightarrow> rd xs i = Some (xs ! i)"
  by (simp add: rd_def)

lemma rd_out_of_range: "length xs \<le> i \<Longrightarrow> rd xs i = None"
  by (simp add: rd_def)

lemma wr_in_range: "i < length xs \<Longrightarrow> wr xs i v = Some (xs[i := v])"
  by (simp add: wr_def)

lemma for_range_append:
  "for_range (xs @ ys) body s =
     (case for_range xs body s of None \<Rightarrow> None | Some s' \<Rightarrow> for_range ys body s')"
  by (induction xs arbitrary: s) (auto split: option.splits)

lemma for_range_cong:
  "(\<And>i s. i \<in> set xs \<Longrightarrow> f i s = g i s) \<Longrightarrow> for_range xs f s = for_range xs g s"
  by (induction xs arbitrary: s) (auto split: option.splits)

lemma for_range_acc:
  fixes acc :: "'a::monoid_add"
  assumes "\<And>i a. i \<in> set xs \<Longrightarrow> body i a = Some (a + t i)"
  shows "for_range xs body acc = Some (acc + sum_list (map t xs))"
  using assms by (induction xs arbitrary: acc) (simp_all add: add.assoc)

lemma for_range_upt_inv:
  assumes "\<And>i. i < n \<Longrightarrow> body i (I i) = Some (I (Suc i))"
  shows "for_range [0..<n] body (I 0) = Some (I n)"
  using assms by (induction n) (simp_all add: for_range_append)

lemma long_range_upt: "int n < 2 ^ 63 \<Longrightarrow> long_range n = [0..<n]"
  by (simp add: long_range_def static_cast_long_def)

lemma rows_done_0: "rows_done f p Ap 0 = (Ap, 0, 0)"
  by (simp add: rows_done_def)

lemma update_next_row:
  "n < length Ap \<Longrightarrow> (map f [0..<n] @ drop n Ap)[n := v] = map f [0..<n] @ v # drop (Suc n) Ap"
  by (simp add: list_update_append flip: Cons_nth_drop_Suc)

lemma rows_done_Suc:
  "n < length Ap \<Longrightarrow>
   rows_done f p Ap (Suc n) =
     (case rows_done f p Ap n of (Ap_buf, s1, s2) \<Rightarrow>
        (Ap_buf[n := f n], s1 + f n * f n, s2 + p ! n * f n))"
  by (simp add: rows_done_def update_next_row)

lemma sum_list_upt_cong:
  "(\<And>i. i < n \<Longrightarrow> g i = h i) \<Longrightarrow> sum_list (map g [0..<n]) = sum_list (map h [0..<n])"
  by (rule arg_cong [where f = sum_list]) simp

lemma sum_squares_map: "sum_squares (map f [0..<n]) = sum_list (map (\<lambda>row. f row * f row) [0..<n])"
  unfolding sum_squares_def by (rule arg_cong [where f = sum_list]) simp

lemma sum_p_Ap_map: "sum_p_Ap p (map f [0..<n]) = sum_list (map (\<lambda>row. p ! row * f row) [0..<n])"
  unfolding sum_p_Ap_def by (rule arg_cong [where f = sum_list]) simp

lemma rows_done_full:
  "length Ap = n \<Longrightarrow>
   rows_done f p Ap n = (map f [0..<n], sum_squares (map f [0..<n]), sum_p_Ap p (map f [0..<n]))"
  by (simp add: rows_done_def sum_squares_map sum_p_Ap_map)

text \<open>A row loop whose body stores \<open>f row\<close> and adds the two products.\<close>

lemma row_loop:
  assumes body: "\<And>row Ap_buf s1 s2. row < n \<Longrightarrow> length Ap_buf = n \<Longrightarrow>
     body row (Ap_buf, s1, s2) = Some (Ap_buf[row := f row], s1 + f row * f row, s2 + p ! row * f row)"
    and len: "length Ap = n"
  shows "for_range [0..<n] body (Ap, 0, 0) =
    Some (map f [0..<n], sum_squares (map f [0..<n]), sum_p_Ap p (map f [0..<n]))"
proof -
  have step: "body i (rows_done f p Ap i) = Some (rows_done f p Ap (Suc i))" if "i < n" for i
  proof -
    obtain Ap_buf s1 s2 where st: "rows_done f p Ap i = (Ap_buf, s1, s2)"
      by (cases "rows_done f p Ap i") auto
    have "length Ap_buf = n"
      using st that len by (auto simp: rows_done_def)
    then show ?thesis
      using body [OF that, of Ap_buf s1 s2] rows_done_Suc [of i Ap f p] st that len by simp
  qed
  have "for_range [0..<n] body (rows_done f p Ap 0) = Some (rows_done f p Ap n)"
    by (rule for_range_upt_inv) (rule step)
  then show ?thesis
    by (simp add: rows_done_0 rows_done_full [OF len])
qed

text \<open>Storing the two reductions.\<close>

lemma store_reductions:
  "3 \<le> length buf \<Longrightarrow>
   (wr buf (length buf div 3) s1 \<bind> (\<lambda>data_buffer. wr data_buffer (2 * (length buf div 3)) s2 \<bind> (\<lambda>data_buffer. Some (Ap_buf, data_buffer))))
    = Some (Ap_buf, buf[length buf div 3 := s1, 2 * (length buf div 3) := s2])"
  by (simp add: wr_def)

lemma list_all_upt: "list_all P [a..<b] \<longleftrightarrow> (\<forall>i. a \<le> i \<and> i < b \<longrightarrow> P i)"
  by (auto simp: list_all_iff)

subsection \<open>The compressed kernel\<close>

lemma compressed_row_body_eq:
  assumes "wf_compressed A p Ap buf" "row < cm_size1 A" "length Ap_buf = cm_size1 A"
  shows "compressed_row_body A p row (Ap_buf, s1, s2) =
    Some (Ap_buf[row := spmv_row (compressed_row_entries A row) p],
          s1 + spmv_row (compressed_row_entries A row) p * spmv_row (compressed_row_entries A row) p,
          s2 + p ! row * spmv_row (compressed_row_entries A row) p)"
proof -
  let ?rb = "cm_handle1 A"
  have rows: "row + 1 < length ?rb" "row < length p"
    and cols: "\<And>i. ?rb ! row \<le> i \<Longrightarrow> i < ?rb ! (row + 1) \<Longrightarrow>
      i < length (cm_handle A) \<and> i < length (cm_handle2 A) \<and> cm_handle2 A ! i < length p"
    using assms(1,2) by (auto simp: wf_compressed_def list_all_upt)
  have inner: "for_range [?rb ! row..<?rb ! (row + 1)] (\<lambda>i dot_prod. do {
       e \<leftarrow> rd (cm_handle A) i;
       c \<leftarrow> rd (cm_handle2 A) i;
       x \<leftarrow> rd p c;
       Some (dot_prod + e * x)
     }) 0 = Some (0 + sum_list (map (\<lambda>i. cm_handle A ! i * p ! (cm_handle2 A ! i)) [?rb ! row..<?rb ! (row + 1)]))"
    by (rule for_range_acc) (use cols in \<open>simp add: rd_in_range\<close>)
  have val: "sum_list (map (\<lambda>i. cm_handle A ! i * p ! (cm_handle2 A ! i)) [?rb ! row..<?rb ! (row + 1)])
     = spmv_row (compressed_row_entries A row) p"
    by (simp add: spmv_row_def compressed_row_entries_def comp_def)
  show ?thesis
    using rows assms(2,3) inner [unfolded val]
    by (simp add: compressed_row_body_def rd_in_range wr_in_range)
qed

lemma compressed_prod:
  assumes "wf_compressed A p Ap buf"
  shows "pipelined_cg_prod_compressed A p Ap buf =
    Some (spmv (Compressed A) p,
          buf[length buf div 3 := sum_squares (spmv (Compressed A) p),
              2 * (length buf div 3) := sum_p_Ap p (spmv (Compressed A) p)])"
proof -
  have len: "length Ap = cm_size1 A" and buf: "3 \<le> length buf" and sz: "int (cm_size1 A) < 2 ^ 63"
    using assms by (auto simp: wf_compressed_def)
  have loop: "for_range [0..<cm_size1 A] (compressed_row_body A p) (Ap, 0, 0) =
    Some (spmv (Compressed A) p, sum_squares (spmv (Compressed A) p), sum_p_Ap p (spmv (Compressed A) p))"
    unfolding spmv_def size1.simps row_entries.simps
    by (rule row_loop [OF compressed_row_body_eq [OF assms] len])
  show ?thesis
    by (simp add: pipelined_cg_prod_compressed_def Let_def long_range_upt [OF sz] loop
        store_reductions [OF buf])
qed

subsection \<open>The ELL and the hybrid kernel\<close>

lemma spmv_row_append: "spmv_row (xs @ ys) p = spmv_row xs p + spmv_row ys p"
  by (simp add: spmv_row_def)

lemma padded_slots_sum:
  "sum_list (map (\<lambda>off. if el ! off \<noteq> 0 then p ! (co ! off) * el ! off else 0) offs) =
   spmv_row (map (\<lambda>off. (co ! off, el ! off)) (filter (\<lambda>off. el ! off \<noteq> 0) offs)) p"
  by (induction offs) (simp_all add: spmv_row_def mult.commute)

lemma ell_part_loop:
  fixes el :: "'a::comm_ring_1 list"
  assumes "\<And>item_id. item_id < nnz \<Longrightarrow>
     row + item_id * is1 < length el \<and>
     (el ! (row + item_id * is1) \<noteq> 0 \<longrightarrow>
        row + item_id * is1 < length co \<and> co ! (row + item_id * is1) < length p)"
  shows "for_range [0..<nnz] (\<lambda>item_id sum'. do {
       let offset = row + item_id * is1;
       val \<leftarrow> rd el offset;
       if val \<noteq> 0
       then do {
         c \<leftarrow> rd co offset;
         x \<leftarrow> rd p c;
         Some (sum' + x * val)
       }
       else Some sum'
     }) acc =
    Some (acc + spmv_row (map (\<lambda>off. (co ! off, el ! off))
      (filter (\<lambda>off. el ! off \<noteq> 0) (map (\<lambda>item_id. row + item_id * is1) [0..<nnz]))) p)"
proof -
  let ?t = "\<lambda>item_id. if el ! (row + item_id * is1) \<noteq> 0
     then p ! (co ! (row + item_id * is1)) * el ! (row + item_id * is1) else 0"
  have "for_range [0..<nnz] (\<lambda>item_id sum'. do {
       let offset = row + item_id * is1;
       val \<leftarrow> rd el offset;
       if val \<noteq> 0
       then do {
         c \<leftarrow> rd co offset;
         x \<leftarrow> rd p c;
         Some (sum' + x * val)
       }
       else Some sum'
     }) acc = Some (acc + sum_list (map ?t [0..<nnz]))"
    by (rule for_range_acc) (use assms in \<open>simp add: rd_in_range Let_def\<close>)
  moreover have "sum_list (map ?t [0..<nnz]) =
    spmv_row (map (\<lambda>off. (co ! off, el ! off))
      (filter (\<lambda>off. el ! off \<noteq> 0) (map (\<lambda>item_id. row + item_id * is1) [0..<nnz]))) p"
    using padded_slots_sum [of el p co "map (\<lambda>item_id. row + item_id * is1) [0..<nnz]"]
    by (simp add: comp_def)
  ultimately show ?thesis by simp
qed

lemma csr_part_loop:
  fixes el :: "'a::comm_ring_1 list"
  assumes "\<And>i. a \<le> i \<Longrightarrow> i < b \<Longrightarrow> i < length co \<and> i < length el \<and> co ! i < length p"
  shows "for_range [a..<b] (\<lambda>item_id sum'. do {
       c \<leftarrow> rd co item_id;
       x \<leftarrow> rd p c;
       e \<leftarrow> rd el item_id;
       Some (sum' + x * e)
     }) acc = Some (acc + spmv_row (map (\<lambda>i. (co ! i, el ! i)) [a..<b]) p)"
proof -
  have "for_range [a..<b] (\<lambda>item_id sum'. do {
       c \<leftarrow> rd co item_id;
       x \<leftarrow> rd p c;
       e \<leftarrow> rd el item_id;
       Some (sum' + x * e)
     }) acc = Some (acc + sum_list (map (\<lambda>i. p ! (co ! i) * el ! i) [a..<b]))"
    by (rule for_range_acc) (use assms in \<open>simp add: rd_in_range\<close>)
  then show ?thesis
    by (simp add: spmv_row_def comp_def mult.commute)
qed

lemma ell_row_body_eq:
  assumes "wf_ell A p Ap buf" "row < ell_size1 A" "length Ap_buf = ell_size1 A"
  shows "ell_row_body A p row (Ap_buf, s1, s2) =
    Some (Ap_buf[row := spmv_row (ell_row_entries A row) p],
          s1 + spmv_row (ell_row_entries A row) p * spmv_row (ell_row_entries A row) p,
          s2 + p ! row * spmv_row (ell_row_entries A row) p)"
proof -
  have row: "row < length p"
    using assms(1,2) by (auto simp: wf_ell_def)
  have slots: "\<And>item_id. item_id < ell_internal_maxnnz A \<Longrightarrow>
     row + item_id * ell_internal_size1 A < length (ell_handle A) \<and>
     (ell_handle A ! (row + item_id * ell_internal_size1 A) \<noteq> 0 \<longrightarrow>
        row + item_id * ell_internal_size1 A < length (ell_handle2 A) \<and>
        ell_handle2 A ! (row + item_id * ell_internal_size1 A) < length p)"
    using assms(1,2) by (auto simp: wf_ell_def list_all_upt Let_def)
  show ?thesis
    using row assms(2,3)
    by (simp add: ell_row_body_def rd_in_range wr_in_range ell_part_loop [OF slots]
        ell_row_entries_def)
qed

lemma ell_prod:
  assumes "wf_ell A p Ap buf"
  shows "pipelined_cg_prod_ell A p Ap buf =
    Some (spmv (Ell A) p,
          buf[length buf div 3 := sum_squares (spmv (Ell A) p),
              2 * (length buf div 3) := sum_p_Ap p (spmv (Ell A) p)])"
proof -
  have len: "length Ap = ell_size1 A" and buf: "3 \<le> length buf"
    using assms by (auto simp: wf_ell_def)
  have loop: "for_range [0..<ell_size1 A] (ell_row_body A p) (Ap, 0, 0) =
    Some (spmv (Ell A) p, sum_squares (spmv (Ell A) p), sum_p_Ap p (spmv (Ell A) p))"
    unfolding spmv_def size1.simps row_entries.simps
    by (rule row_loop [OF ell_row_body_eq [OF assms] len])
  show ?thesis
    by (simp add: pipelined_cg_prod_ell_def Let_def loop store_reductions [OF buf])
qed

lemma hyb_row_body_eq:
  assumes "wf_hyb A p Ap buf" "row < hyb_size1 A" "length Ap_buf = hyb_size1 A"
  shows "hyb_row_body A p row (Ap_buf, s1, s2) =
    Some (Ap_buf[row := spmv_row (hyb_row_entries A row) p],
          s1 + spmv_row (hyb_row_entries A row) p * spmv_row (hyb_row_entries A row) p,
          s2 + p ! row * spmv_row (hyb_row_entries A row) p)"
proof -
  have row: "row < length p" "row + 1 < length (hyb_handle3 A)"
    using assms(1,2) by (auto simp: wf_hyb_def list_all_upt)
  have slots: "\<And>item_id. item_id < hyb_internal_ellnnz A \<Longrightarrow>
     row + item_id * hyb_internal_size1 A < length (hyb_handle A) \<and>
     (hyb_handle A ! (row + item_id * hyb_internal_size1 A) \<noteq> 0 \<longrightarrow>
        row + item_id * hyb_internal_size1 A < length (hyb_handle2 A) \<and>
        hyb_handle2 A ! (row + item_id * hyb_internal_size1 A) < length p)"
    using assms(1,2) by (auto simp: wf_hyb_def list_all_upt Let_def)
  have cols: "\<And>i. hyb_handle3 A ! row \<le> i \<Longrightarrow> i < hyb_handle3 A ! (row + 1) \<Longrightarrow>
      i < length (hyb_handle4 A) \<and> i < length (hyb_handle5 A) \<and> hyb_handle4 A ! i < length p"
    using assms(1,2) by (auto simp: wf_hyb_def list_all_upt)
  show ?thesis
    using row assms(2,3)
    by (simp add: hyb_row_body_def rd_in_range wr_in_range ell_part_loop [OF slots]
        csr_part_loop [OF cols, simplified] hyb_row_entries_def spmv_row_append)
qed

lemma hyb_prod:
  assumes "wf_hyb A p Ap buf"
  shows "pipelined_cg_prod_hyb A p Ap buf =
    Some (spmv (Hyb A) p,
          buf[length buf div 3 := sum_squares (spmv (Hyb A) p),
              2 * (length buf div 3) := sum_p_Ap p (spmv (Hyb A) p)])"
proof -
  have len: "length Ap = hyb_size1 A" and buf: "3 \<le> length buf"
    using assms by (auto simp: wf_hyb_def)
  have loop: "for_range [0..<hyb_size1 A] (hyb_row_body A p) (Ap, 0, 0) =
    Some (spmv (Hyb A) p, sum_squares (spmv (Hyb A) p), sum_p_Ap p (spmv (Hyb A) p))"
    unfolding spmv_def size1.simps row_entries.simps
    by (rule row_loop [OF hyb_row_body_eq [OF assms] len])
  show ?thesis
    by (simp add: pipelined_cg_prod_hyb_def Let_def loop store_reductions [OF buf])
qed

subsection \<open>The coordinate kernel\<close>

lemma zero_fill:
  fixes xs :: "'a::zero list"
  shows "for_range [0..<length xs] (\<lambda>i ys. wr ys i 0) xs = Some (replicate (length xs) 0)"
proof -
  let ?I = "\<lambda>k. replicate k (0::'a) @ drop k xs"
  have "for_range [0..<length xs] (\<lambda>i ys. wr ys i 0) (?I 0) = Some (?I (length xs))"
  proof (rule for_range_upt_inv)
    fix i assume i: "i < length xs"
    have "(replicate i 0 @ drop i xs)[i := 0] = replicate i 0 @ (0::'a) # drop (Suc i) xs"
      using i by (simp add: list_update_append flip: Cons_nth_drop_Suc)
    also have "\<dots> = replicate (Suc i) 0 @ drop (Suc i) xs"
      by (simp add: replicate_append_same)
    finally show "wr (?I i) i 0 = Some (?I (Suc i))"
      using i by (simp add: wr_def)
  qed
  then show ?thesis by simp
qed

lemma coordinate_flush_eq: "coordinate_flush Ap = Some (replicate (length Ap) 0)"
  unfolding coordinate_flush_def by (rule zero_fill)

lemma scattered_0: "scattered A p n 0 = replicate n 0"
  by (simp add: scattered_def spmv_row_def map_replicate_const)

lemma scattered_Suc:
  assumes "coo_handle12 A ! (2 * k) < n"
  shows "scattered A p n (Suc k) =
    (scattered A p n k)[coo_handle12 A ! (2 * k) :=
       scattered A p n k ! (coo_handle12 A ! (2 * k))
         + coo_handle A ! k * p ! (coo_handle12 A ! (2 * k + 1))]"
  using assms by (intro nth_equalityI) (auto simp: scattered_def nth_list_update spmv_row_def)

lemma coordinate_scatter_eq:
  assumes "wf_coordinate A p Ap buf"
  shows "coordinate_scatter A p (replicate (coo_size1 A) 0) = Some (spmv (Coordinate A) p)"
proof -
  let ?I = "scattered A p (coo_size1 A)"
  have "for_range [0..<coo_nnz A] (\<lambda>i Ap_buf. do {
       row \<leftarrow> rd (coo_handle12 A) (2 * i);
       old \<leftarrow> rd Ap_buf row;
       e \<leftarrow> rd (coo_handle A) i;
       col \<leftarrow> rd (coo_handle12 A) (2 * i + 1);
       x \<leftarrow> rd p col;
       wr Ap_buf row (old + e * x)
     }) (?I 0) = Some (?I (coo_nnz A))"
  proof (rule for_range_upt_inv)
    fix i assume i: "i < coo_nnz A"
    then have b: "i < length (coo_handle A)" "2 * i + 1 < length (coo_handle12 A)"
      "coo_handle12 A ! (2 * i) < coo_size1 A" "coo_handle12 A ! (2 * i + 1) < length p"
      using assms by (auto simp: wf_coordinate_def list_all_upt)
    have len: "length (?I i) = coo_size1 A"
      by (simp add: scattered_def)
    show "rd (coo_handle12 A) (2 * i) \<bind> (\<lambda>row.
       rd (?I i) row \<bind> (\<lambda>old.
       rd (coo_handle A) i \<bind> (\<lambda>e.
       rd (coo_handle12 A) (2 * i + 1) \<bind> (\<lambda>col.
       rd p col \<bind> (\<lambda>x. wr (?I i) row (old + e * x)))))) = Some (?I (Suc i))"
      using b len by (simp add: rd_in_range wr_in_range scattered_Suc [OF b(3)])
  qed
  then have "coordinate_scatter A p (replicate (coo_size1 A) 0) = Some (?I (coo_nnz A))"
    by (simp add: coordinate_scatter_def scattered_0)
  moreover have "?I (coo_nnz A) = spmv (Coordinate A) p"
    by (simp add: spmv_def coordinate_row_entries_def scattered_def)
  ultimately show ?thesis by simp
qed

lemma coordinate_reduce_eq:
  assumes "length Ap_buf \<le> length p"
  shows "coordinate_reduce p Ap_buf = Some (sum_squares Ap_buf, sum_p_Ap p Ap_buf)"
proof -
  let ?I = "\<lambda>k. (sum_list (map (\<lambda>i. Ap_buf ! i * Ap_buf ! i) [0..<k]),
                 sum_list (map (\<lambda>i. Ap_buf ! i * p ! i) [0..<k]))"
  have "for_range [0..<length Ap_buf] (\<lambda>i (inner_prod_ApAp, inner_prod_pAp). do {
       value_Ap \<leftarrow> rd Ap_buf i;
       value_p \<leftarrow> rd p i;
       Some (inner_prod_ApAp + value_Ap * value_Ap, inner_prod_pAp + value_Ap * value_p)
     }) (?I 0) = Some (?I (length Ap_buf))"
    by (rule for_range_upt_inv) (use assms in \<open>simp add: rd_in_range\<close>)
  then show ?thesis
    by (simp add: coordinate_reduce_def sum_squares_def sum_p_Ap_def mult.commute)
qed

lemma length_spmv: "length (spmv A p) = size1 A"
  by (simp add: spmv_def)

lemma coordinate_prod:
  assumes "wf_coordinate A p Ap buf"
  shows "pipelined_cg_prod_coordinate A p Ap buf =
    Some (spmv (Coordinate A) p,
          buf[length buf div 3 := sum_squares (spmv (Coordinate A) p),
              2 * (length buf div 3) := sum_p_Ap p (spmv (Coordinate A) p)])"
proof -
  have len: "length Ap = coo_size1 A" and buf: "3 \<le> length buf"
    and p: "length (spmv (Coordinate A) p) \<le> length p"
    using assms by (auto simp: wf_coordinate_def length_spmv)
  show ?thesis
    by (simp add: pipelined_cg_prod_coordinate_def Let_def coordinate_flush_eq len
        coordinate_scatter_eq [OF assms] coordinate_reduce_eq [OF p] store_reductions [OF buf])
qed

subsection \<open>The sliced ELL kernel\<close>

lemma for_range_upt_pred:
  assumes "P 0 s"
    and "\<And>i s. i < n \<Longrightarrow> P i s \<Longrightarrow> \<exists>s'. body i s = Some s' \<and> P (Suc i) s'"
  shows "\<exists>s'. for_range [0..<n] body s = Some s' \<and> P n s'"
  using assms
proof (induction n)
  case 0
  then show ?case by simp
next
  case (Suc n)
  then obtain s1 where s1: "for_range [0..<n] body s = Some s1" "P n s1"
    by force
  from Suc.prems(2) [OF _ s1(2)] obtain s2 where "body n s1 = Some s2" "P (Suc n) s2"
    by auto
  with s1 show ?case
    by (simp add: for_range_append)
qed

lemma wf_sliced_ell_slots:
  assumes "wf_sliced_ell A p Ap buf" "block_idx < sell_size1 A div sell_rows_per_block A + 1"
  shows "block_idx < length (sell_handle1 A)"
    and "\<And>c r. c < sell_handle1 A ! block_idx \<Longrightarrow> block_idx < length (sell_handle3 A)"
    and "\<And>c r. c < sell_handle1 A ! block_idx \<Longrightarrow> r < sell_rows_per_block A \<Longrightarrow>
      sell_handle3 A ! block_idx + c * sell_rows_per_block A + r < length (sell_handle A)"
    and "\<And>c r. c < sell_handle1 A ! block_idx \<Longrightarrow> r < sell_rows_per_block A \<Longrightarrow>
      sell_handle A ! (sell_handle3 A ! block_idx + c * sell_rows_per_block A + r) \<noteq> 0 \<Longrightarrow>
      sell_handle3 A ! block_idx + c * sell_rows_per_block A + r < length (sell_handle2 A) \<and>
      sell_handle2 A ! (sell_handle3 A ! block_idx + c * sell_rows_per_block A + r) < length p"
  using assms by (auto simp: wf_sliced_ell_def list_all_upt Let_def simp del: upt_Suc)

lemma sliced_ell_column:
  assumes wf: "wf_sliced_ell A p Ap buf" "block_idx < sell_size1 A div sell_rows_per_block A + 1"
    and c: "c < sell_handle1 A ! block_idx"
    and len: "length rv = sell_rows_per_block A"
  shows "for_range [0..<sell_rows_per_block A] (\<lambda>row_in_block result_values. do {
         val \<leftarrow> rd (sell_handle A) (sell_handle3 A ! block_idx + c * sell_rows_per_block A + row_in_block);
         old \<leftarrow> rd result_values row_in_block;
         contribution \<leftarrow>
           (if val \<noteq> 0
            then do {
              c \<leftarrow> rd (sell_handle2 A) (sell_handle3 A ! block_idx + c * sell_rows_per_block A + row_in_block);
              x \<leftarrow> rd p c;
              Some (x * val)
            }
            else Some 0);
         wr result_values row_in_block (old + contribution)
       }) rv =
     Some (map (\<lambda>r. rv ! r + sliced_ell_slot A p block_idx c r) [0..<sell_rows_per_block A])"
proof -
  let ?n = "sell_rows_per_block A"
  let ?f = "\<lambda>r. rv ! r + sliced_ell_slot A p block_idx c r"
  let ?I = "\<lambda>k. map ?f [0..<k] @ drop k rv"
  have "for_range [0..<?n] (\<lambda>row_in_block result_values. do {
         val \<leftarrow> rd (sell_handle A) (sell_handle3 A ! block_idx + c * ?n + row_in_block);
         old \<leftarrow> rd result_values row_in_block;
         contribution \<leftarrow>
           (if val \<noteq> 0
            then do {
              c \<leftarrow> rd (sell_handle2 A) (sell_handle3 A ! block_idx + c * ?n + row_in_block);
              x \<leftarrow> rd p c;
              Some (x * val)
            }
            else Some 0);
         wr result_values row_in_block (old + contribution)
       }) (?I 0) = Some (?I ?n)"
  proof (rule for_range_upt_inv)
    fix i assume i: "i < ?n"
    have old: "rd (?I i) i = Some (rv ! i)"
      using i len by (simp add: rd_def nth_append)
    have upd: "wr (?I i) i v = Some (map ?f [0..<i] @ v # drop (Suc i) rv)" for v
      using i len by (simp add: wr_def update_next_row)
    show "rd (sell_handle A) (sell_handle3 A ! block_idx + c * ?n + i) \<bind> (\<lambda>val.
         rd (?I i) i \<bind> (\<lambda>old.
         (if val \<noteq> 0
            then do {
              c \<leftarrow> rd (sell_handle2 A) (sell_handle3 A ! block_idx + c * ?n + i);
              x \<leftarrow> rd p c;
              Some (x * val)
            }
            else Some 0) \<bind> (\<lambda>contribution.
         wr (?I i) i (old + contribution)))) = Some (?I (Suc i))"
    proof (cases "sell_handle A ! (sell_handle3 A ! block_idx + c * ?n + i) = 0")
      case True
      then have "sliced_ell_slot A p block_idx c i = 0"
        by (simp add: sliced_ell_slot_def)
      with True wf_sliced_ell_slots(3) [OF wf c i] show ?thesis
        by (simp add: old upd rd_in_range)
    next
      case False
      then have "sliced_ell_slot A p block_idx c i =
        p ! (sell_handle2 A ! (sell_handle3 A ! block_idx + c * ?n + i))
          * sell_handle A ! (sell_handle3 A ! block_idx + c * ?n + i)"
        by (simp add: sliced_ell_slot_def Let_def)
      with False wf_sliced_ell_slots(3) [OF wf c i] wf_sliced_ell_slots(4) [OF wf c i False]
      show ?thesis
        by (simp add: old upd rd_in_range)
    qed
  qed
  then show ?thesis
    using len by simp
qed

lemma sliced_ell_accumulate_eq:
  assumes wf: "wf_sliced_ell A p Ap buf" "block_idx < sell_size1 A div sell_rows_per_block A + 1"
  shows "sliced_ell_accumulate A p block_idx (sell_handle1 A ! block_idx)
           (replicate (sell_rows_per_block A) 0) =
         Some (sliced_ell_block_values A p block_idx (sell_handle1 A ! block_idx))"
proof -
  let ?J = "sliced_ell_block_values A p block_idx"
  have "for_range [0..<sell_handle1 A ! block_idx] (\<lambda>column_entry_index result_values. do {
       start \<leftarrow> rd (sell_handle3 A) block_idx;
       let stride_start = start + column_entry_index * sell_rows_per_block A;
       for_range [0..<sell_rows_per_block A] (\<lambda>row_in_block result_values. do {
         val \<leftarrow> rd (sell_handle A) (stride_start + row_in_block);
         old \<leftarrow> rd result_values row_in_block;
         contribution \<leftarrow>
           (if val \<noteq> 0
            then do {
              c \<leftarrow> rd (sell_handle2 A) (stride_start + row_in_block);
              x \<leftarrow> rd p c;
              Some (x * val)
            }
            else Some 0);
         wr result_values row_in_block (old + contribution)
       }) result_values
     }) (?J 0) = Some (?J (sell_handle1 A ! block_idx))"
  proof (rule for_range_upt_inv)
    fix c assume c: "c < sell_handle1 A ! block_idx"
    have len: "length (?J c) = sell_rows_per_block A"
      by (simp add: sliced_ell_block_values_def)
    have next_col: "map (\<lambda>r. ?J c ! r + sliced_ell_slot A p block_idx c r) [0..<sell_rows_per_block A]
        = ?J (Suc c)"
      by (simp add: sliced_ell_block_values_def)
    show "rd (sell_handle3 A) block_idx \<bind> (\<lambda>start.
       let stride_start = start + c * sell_rows_per_block A in
       for_range [0..<sell_rows_per_block A] (\<lambda>row_in_block result_values. do {
         val \<leftarrow> rd (sell_handle A) (stride_start + row_in_block);
         old \<leftarrow> rd result_values row_in_block;
         contribution \<leftarrow>
           (if val \<noteq> 0
            then do {
              c \<leftarrow> rd (sell_handle2 A) (stride_start + row_in_block);
              x \<leftarrow> rd p c;
              Some (x * val)
            }
            else Some 0);
         wr result_values row_in_block (old + contribution)
       }) (?J c)) = Some (?J (Suc c))"
      using wf_sliced_ell_slots(2) [OF wf c] sliced_ell_column [OF wf c len]
      by (simp add: rd_in_range Let_def next_col)
  qed
  moreover have "?J 0 = replicate (sell_rows_per_block A) 0"
    by (simp add: sliced_ell_block_values_def map_replicate_const)
  ultimately show ?thesis
    by (simp add: sliced_ell_accumulate_def)
qed

lemma rows_done_length:
  "n \<le> length Ap \<Longrightarrow> rows_done f p Ap n = (Ap_buf, s1, s2) \<Longrightarrow> length Ap_buf = length Ap"
  by (auto simp: rows_done_def)

lemma sliced_ell_block_values_nth:
  assumes "r < sell_rows_per_block A"
  shows "sliced_ell_block_values A p block_idx (sell_handle1 A ! block_idx) ! r =
    spmv_row (sliced_ell_row_entries A (block_idx * sell_rows_per_block A + r)) p"
proof -
  let ?offs = "map (\<lambda>c. sell_handle3 A ! block_idx + c * sell_rows_per_block A + r)
                 [0..<sell_handle1 A ! block_idx]"
  have "sliced_ell_block_values A p block_idx (sell_handle1 A ! block_idx) ! r =
    sum_list (map (\<lambda>c. sliced_ell_slot A p block_idx c r) [0..<sell_handle1 A ! block_idx])"
    using assms by (simp add: sliced_ell_block_values_def)
  also have "\<dots> = sum_list (map (\<lambda>off. if sell_handle A ! off \<noteq> 0
        then p ! (sell_handle2 A ! off) * sell_handle A ! off else 0) ?offs)"
    by (simp add: sliced_ell_slot_def Let_def comp_def)
  also have "\<dots> = spmv_row (map (\<lambda>off. (sell_handle2 A ! off, sell_handle A ! off))
      (filter (\<lambda>off. sell_handle A ! off \<noteq> 0) ?offs)) p"
    by (rule padded_slots_sum)
  also have "\<dots> = spmv_row (sliced_ell_row_entries A (block_idx * sell_rows_per_block A + r)) p"
    using assms by (simp add: sliced_ell_row_entries_def Let_def)
  finally show ?thesis .
qed

lemma sliced_ell_write_back_eq:
  fixes A :: "'a::comm_ring_1 sliced_ell_matrix" and p :: "'a list"
  assumes len: "length Ap \<le> length p"
  defines "f \<equiv> \<lambda>row. spmv_row (sliced_ell_row_entries A row) p"
  shows "sliced_ell_write_back A p (length Ap) block_idx
           (sliced_ell_block_values A p block_idx (sell_handle1 A ! block_idx))
           (rows_done f p Ap (min (block_idx * sell_rows_per_block A) (length Ap))) =
         Some (rows_done f p Ap (min (Suc block_idx * sell_rows_per_block A) (length Ap)))"
proof -
  let ?n = "sell_rows_per_block A"
  let ?rv = "sliced_ell_block_values A p block_idx (sell_handle1 A ! block_idx)"
  let ?K = "\<lambda>k. rows_done f p Ap (min (block_idx * ?n + k) (length Ap))"
  have "for_range [0..<?n]
        (\<lambda>row_in_block (Ap_buf, inner_prod_ApAp, inner_prod_pAp).
          let row = block_idx * ?n + row_in_block in
          if row < length Ap
          then do {
            row_result \<leftarrow> rd ?rv row_in_block;
            Ap_buf' \<leftarrow> wr Ap_buf row row_result;
            val_p \<leftarrow> rd p row;
            Some (Ap_buf', inner_prod_ApAp + row_result * row_result,
                  inner_prod_pAp + val_p * row_result)
          }
          else Some (Ap_buf, inner_prod_ApAp, inner_prod_pAp)) (?K 0) = Some (?K ?n)"
  proof (rule for_range_upt_inv)
    fix k assume k: "k < ?n"
    let ?row = "block_idx * ?n + k"
    obtain Ap_buf s1 s2 where st: "?K k = (Ap_buf, s1, s2)"
      by (cases "?K k") auto
    show "(case ?K k of (Ap_buf, inner_prod_ApAp, inner_prod_pAp) \<Rightarrow>
          let row = block_idx * ?n + k in
          if row < length Ap
          then do {
            row_result \<leftarrow> rd ?rv k;
            Ap_buf' \<leftarrow> wr Ap_buf row row_result;
            val_p \<leftarrow> rd p row;
            Some (Ap_buf', inner_prod_ApAp + row_result * row_result,
                  inner_prod_pAp + val_p * row_result)
          }
          else Some (Ap_buf, inner_prod_ApAp, inner_prod_pAp)) = Some (?K (Suc k))"
    proof (cases "?row < length Ap")
      case True
      then have mins: "min ?row (length Ap) = ?row"
        "min (block_idx * ?n + Suc k) (length Ap) = Suc ?row"
        by simp_all
      have lenb: "length Ap_buf = length Ap"
        using rows_done_length [OF _ st] by simp
      have rv: "rd ?rv k = Some (f ?row)"
        using k sliced_ell_block_values_nth [OF k, of p block_idx]
        by (simp add: rd_def sliced_ell_block_values_def f_def)
      show ?thesis
        using True len st lenb rows_done_Suc [OF True, of f p]
        by (simp add: mins rv rd_in_range wr_in_range Let_def)
    next
      case False
      then have "min ?row (length Ap) = length Ap"
        "min (block_idx * ?n + Suc k) (length Ap) = length Ap"
        by simp_all
      with False st show ?thesis by simp
    qed
  qed
  moreover have "?K 0 = rows_done f p Ap (min (block_idx * ?n) (length Ap))"
    by simp
  moreover have "?K ?n = rows_done f p Ap (min (Suc block_idx * ?n) (length Ap))"
    by (simp add: add.commute)
  ultimately show ?thesis
    unfolding sliced_ell_write_back_def Let_def by simp
qed

lemma sliced_ell_block_body_eq:
  fixes A :: "'a::comm_ring_1 sliced_ell_matrix" and p :: "'a list"
  assumes wf: "wf_sliced_ell A p Ap buf" "block_idx < sell_size1 A div sell_rows_per_block A + 1"
    and rv: "length rv = sell_rows_per_block A"
  defines "f \<equiv> \<lambda>row. spmv_row (sliced_ell_row_entries A row) p"
  shows "sliced_ell_block_body A p (length Ap) block_idx
           (rv, rows_done f p Ap (min (block_idx * sell_rows_per_block A) (length Ap))) =
         Some (sliced_ell_block_values A p block_idx (sell_handle1 A ! block_idx),
               rows_done f p Ap (min (Suc block_idx * sell_rows_per_block A) (length Ap)))"
proof -
  have len: "length Ap \<le> length p"
    using wf(1) by (simp add: wf_sliced_ell_def)
  show ?thesis
    using wf_sliced_ell_slots(1) [OF wf]
    by (simp add: sliced_ell_block_body_def rd_in_range zero_fill rv
        sliced_ell_accumulate_eq [OF wf] sliced_ell_write_back_eq [OF len] f_def)
qed

lemma sliced_ell_prod:
  fixes A :: "'a::comm_ring_1 sliced_ell_matrix"
  assumes "wf_sliced_ell A p Ap buf"
  shows "pipelined_cg_prod_sliced_ell A p Ap buf =
    Some (spmv (Sliced_Ell A) p,
          buf[length buf div 3 := sum_squares (spmv (Sliced_Ell A) p),
              2 * (length buf div 3) := sum_p_Ap p (spmv (Sliced_Ell A) p)])"
proof -
  let ?n = "sell_rows_per_block A"
  let ?nb = "sell_size1 A div ?n + 1"
  define f where "f = (\<lambda>row. spmv_row (sliced_ell_row_entries A row) p)"
  have len: "length Ap = sell_size1 A" and buf: "3 \<le> length buf" and pos: "0 < ?n"
    using assms by (auto simp: wf_sliced_ell_def)
  let ?P = "\<lambda>b (rv :: 'a list, st). length rv = ?n \<and> st = rows_done f p Ap (min (b * ?n) (length Ap))"
  have "\<exists>s'. for_range [0..<?nb] (sliced_ell_block_body A p (length Ap))
            (replicate ?n 0, Ap, 0, 0) = Some s' \<and> ?P ?nb s'"
  proof (rule for_range_upt_pred)
    show "?P 0 (replicate ?n 0, Ap, 0, 0)"
      by (simp add: rows_done_0)
  next
    fix i s assume i: "i < ?nb" and P: "?P i s"
    obtain rv st where s: "s = (rv, st)" by (cases s)
    with P have rv: "length rv = ?n"
      and st: "st = rows_done f p Ap (min (i * ?n) (length Ap))"
      by auto
    show "\<exists>s'. sliced_ell_block_body A p (length Ap) i s = Some s' \<and> ?P (Suc i) s'"
      unfolding s st f_def
      using sliced_ell_block_body_eq [OF assms i rv]
      by (simp add: sliced_ell_block_values_def)
  qed
  then obtain rv' st' where run: "for_range [0..<?nb] (sliced_ell_block_body A p (length Ap))
            (replicate ?n 0, Ap, 0, 0) = Some (rv', st')"
    and st': "st' = rows_done f p Ap (min (?nb * ?n) (length Ap))"
    by auto
  have "sell_size1 A < ?nb * ?n"
    using pos dividend_less_div_times [of ?n "sell_size1 A"] by (simp add: algebra_simps)
  then have "min (?nb * ?n) (length Ap) = sell_size1 A"
    using len by simp
  then have "st' = (spmv (Sliced_Ell A) p, sum_squares (spmv (Sliced_Ell A) p),
                    sum_p_Ap p (spmv (Sliced_Ell A) p))"
    using st' rows_done_full [OF len, of f p] by (simp add: spmv_def f_def)
  with run pos show ?thesis
    by (simp add: pipelined_cg_prod_sliced_ell_def Let_def store_reductions [OF buf])
qed

subsection \<open>The vector update\<close>

lemma vector_update_body_step:
  assumes "n < length result" "n < length p" "n < length r" "n < length Ap"
  shows "vector_update_body alpha Ap beta n (update_done result alpha p r Ap beta n) =
    Some (update_done result alpha p r Ap beta (Suc n))"
  using assms
  by (simp add: vector_update_body_def update_done_def rd_def wr_def nth_append
      update_next_row Let_def)

lemma vector_update_loop:
  assumes "n \<le> length result" "n \<le> length p" "n \<le> length r" "n \<le> length Ap"
  shows "for_range [0..<n] (vector_update_body alpha Ap beta) (result, p, r, 0) =
    Some (update_done result alpha p r Ap beta n)"
proof -
  have "for_range [0..<n] (vector_update_body alpha Ap beta)
      (update_done result alpha p r Ap beta 0) = Some (update_done result alpha p r Ap beta n)"
    by (rule for_range_upt_inv) (use assms in \<open>simp add: vector_update_body_step\<close>)
  then show ?thesis
    by (simp add: update_done_def)
qed

lemma vector_update_fault:
  assumes "n < length result" "n \<le> length p" "n \<le> length r" "n \<le> length Ap"
    and "n = length p \<or> n = length r \<or> n = length Ap"
  shows "for_range [0..<length result] (vector_update_body alpha Ap beta) (result, p, r, 0) = None"
proof -
  have split: "[0..<length result] = [0..<n] @ n # [Suc n..<length result]"
    using assms(1) by (metis less_imp_le_nat upt_add_eq_append upt_conv_Cons add_0 le0 le_add_diff_inverse)
  have "vector_update_body alpha Ap beta n (update_done result alpha p r Ap beta n) = None"
    using assms by (auto simp: vector_update_body_def update_done_def rd_def wr_def Let_def)
  then show ?thesis
    using assms(1-4) by (simp add: split for_range_append vector_update_loop)
qed

subsection \<open>Inner products and columns\<close>

lemma map2_nth:
  "map2 f xs ys = map (\<lambda>i. f (xs ! i) (ys ! i)) [0..<min (length xs) (length ys)]"
  by (intro nth_equalityI) auto

lemma sum_squares_inner_prod: "sum_squares x = inner_prod x x"
  by (simp add: sum_squares_def inner_prod_def map2_nth)

lemma sum_p_Ap_inner_prod: "length Ap \<le> length p \<Longrightarrow> sum_p_Ap p Ap = inner_prod p Ap"
  by (simp add: sum_p_Ap_def inner_prod_def map2_nth min_absorb2)

text \<open>A row product in terms of the entries of the logical matrix.\<close>

lemma sum_list_delta:
  fixes x :: "'a::comm_monoid_add"
  shows "sum_list (map (\<lambda>col. if c = col then x else 0) [0..<n]) = (if c < n then x else 0)"
  by (induction n) auto

lemma spmv_row_by_column:
  fixes p :: "'a::comm_ring_1 list"
  assumes "\<forall>e \<in> set es. fst e < n"
  shows "spmv_row es p =
    sum_list (map (\<lambda>col. sum_list (map snd (filter (\<lambda>e. fst e = col) es)) * p ! col) [0..<n])"
  using assms
proof (induction es)
  case Nil
  then show ?case by (simp add: spmv_row_def)
next
  case (Cons e es)
  have "sum_list (map (\<lambda>col. sum_list (map snd (filter (\<lambda>e. fst e = col) (e # es))) * p ! col) [0..<n])
    = sum_list (map (\<lambda>col. (if fst e = col then snd e * p ! fst e else 0)
         + sum_list (map snd (filter (\<lambda>e. fst e = col) es)) * p ! col) [0..<n])"
    by (rule arg_cong [where f = sum_list]) (simp add: algebra_simps)
  also have "\<dots> = sum_list (map (\<lambda>col. if fst e = col then snd e * p ! fst e else 0) [0..<n])
     + sum_list (map (\<lambda>col. sum_list (map snd (filter (\<lambda>e. fst e = col) es)) * p ! col) [0..<n])"
    by (simp add: sum_list_addf)
  also have "\<dots> = snd e * p ! fst e + spmv_row es p"
    using Cons by (simp add: sum_list_delta)
  finally show ?case
    by (simp add: spmv_row_def)
qed

section \<open>The claims\<close>

text \<open>
  Claim C1. One pass of the loop body at an index \<open>i\<close> inside the four vectors adds
  \<open>alpha * p[i]\<close> (the old \<open>p[i]\<close>) to \<open>result[i]\<close>, forms the new
  \<open>r[i] = r[i] - alpha * Ap[i]\<close>, forms the new \<open>p[i]\<close> as the new \<open>r[i]\<close> plus
  \<open>beta\<close> times the old \<open>p[i]\<close>, adds the square of the new \<open>r[i]\<close> to the running
  sum, and stores the new \<open>p[i]\<close> and \<open>r[i]\<close>. For four vectors of the same size
  \<open>N\<close> the kernel returns these values at every index \<open>i < N\<close> and stores the sum of
  the squares of the new \<open>r[i]\<close> in slot 0 of the reduction buffer. On the input of the
  specification (\<open>result = [1,2]\<close>, \<open>p = [1,1]\<close>, \<open>r = [2,2]\<close>, \<open>Ap = [0,0]\<close>,
  \<open>alpha = 1\<close>, \<open>beta = 0\<close>) it yields \<open>result = [2,3]\<close>, \<open>p = [2,2]\<close>,
  \<open>r = [2,2]\<close> and the reduction value 8.
\<close>

theorem vector_update_recurrence:
  assumes "wf_update result p r Ap buf"
  shows "(\<forall>i < length result. \<forall>res q s acc.
            length res = length result \<and> length q = length result \<and> length s = length result \<longrightarrow>
            vector_update_body alpha Ap beta i (res, q, s, acc) =
              Some (res[i := res ! i + alpha * q ! i],
                    q[i := (s ! i - alpha * Ap ! i) + beta * q ! i],
                    s[i := s ! i - alpha * Ap ! i],
                    acc + (s ! i - alpha * Ap ! i) * (s ! i - alpha * Ap ! i)))
    \<and> pipelined_cg_vector_update result alpha p r Ap beta buf =
      Some (map (\<lambda>i. result ! i + alpha * p ! i) [0..<length result],
            map (\<lambda>i. (r ! i - alpha * Ap ! i) + beta * p ! i) [0..<length result],
            map (\<lambda>i. r ! i - alpha * Ap ! i) [0..<length result],
            buf[0 := sum_list (map (\<lambda>i. (r ! i - alpha * Ap ! i) * (r ! i - alpha * Ap ! i))
                         [0..<length result])])
    \<and> pipelined_cg_vector_update [1, 2] 1 [1, 1] [2, 2] [0, 0] 0 [7, 8, 9 :: int] =
      Some ([2, 3], [2, 2], [2, 2], [8, 8, 9])"
proof (intro conjI)
  have sz: "int (length result) < 2 ^ 63" and len: "length p = length result"
    "length r = length result" "length Ap = length result" and buf: "0 < length buf"
    using assms by (auto simp: wf_update_def)
  show "\<forall>i < length result. \<forall>res q s acc.
            length res = length result \<and> length q = length result \<and> length s = length result \<longrightarrow>
            vector_update_body alpha Ap beta i (res, q, s, acc) =
              Some (res[i := res ! i + alpha * q ! i],
                    q[i := (s ! i - alpha * Ap ! i) + beta * q ! i],
                    s[i := s ! i - alpha * Ap ! i],
                    acc + (s ! i - alpha * Ap ! i) * (s ! i - alpha * Ap ! i))"
    using len(3) by (simp add: vector_update_body_def rd_def wr_def Let_def)
  have "for_range [0..<length result] (vector_update_body alpha Ap beta) (result, p, r, 0) =
      Some (update_done result alpha p r Ap beta (length result))"
    by (rule vector_update_loop) (simp_all add: len)
  then show "pipelined_cg_vector_update result alpha p r Ap beta buf =
      Some (map (\<lambda>i. result ! i + alpha * p ! i) [0..<length result],
            map (\<lambda>i. (r ! i - alpha * Ap ! i) + beta * p ! i) [0..<length result],
            map (\<lambda>i. r ! i - alpha * Ap ! i) [0..<length result],
            buf[0 := sum_list (map (\<lambda>i. (r ! i - alpha * Ap ! i) * (r ! i - alpha * Ap ! i))
                         [0..<length result])])"
    using buf
    by (simp add: pipelined_cg_vector_update_def long_range_upt [OF sz] update_done_def len
        wr_in_range)
  show "pipelined_cg_vector_update [1, 2] 1 [1, 1] [2, 2] [0, 0] 0 [7, 8, 9 :: int] =
      Some ([2, 3], [2, 2], [2, 2], [8, 8, 9])"
    by code_simp
qed

theorem vector_update_recurrence_witness:
  "wf_update [1, 2] [1, 1] [2, 2] [0, 0] [7, 8, 9 :: int] \<and>
   pipelined_cg_vector_update [1, 2] 1 [1, 1] [2, 2] [0, 0] 0 [7, 8, 9 :: int] =
     Some ([2, 3], [2, 2], [2, 2], [8, 8, 9])"
proof -
  have h: "wf_update [1, 2] [1, 1] [2, 2] [0, 0] [7, 8, 9 :: int]"
    by (simp add: wf_update_def)
  show ?thesis
    using h vector_update_recurrence [OF h, of 1 0] by simp
qed

subsection \<open>All five products at once\<close>

lemma pipelined_cg_prod_eq:
  assumes "wf_prod A p Ap buf"
  shows "pipelined_cg_prod A p Ap buf =
    Some (spmv A p,
          buf[length buf div 3 := sum_squares (spmv A p),
              2 * (length buf div 3) := sum_p_Ap p (spmv A p)])"
  using assms
  by (cases A)
    (simp_all add: compressed_prod coordinate_prod ell_prod sliced_ell_prod hyb_prod)

lemma wf_prod_sizes:
  assumes "wf_prod A p Ap buf"
  shows "length Ap = size1 A" "size1 A \<le> length p" "3 \<le> length buf"
  using assms
  by (cases A; simp add: wf_compressed_def wf_coordinate_def wf_ell_def wf_sliced_ell_def
      wf_hyb_def)+

lemma reduction_slots:
  assumes "3 \<le> length buf"
  shows "buf[length buf div 3 := s1, 2 * (length buf div 3) := s2] ! (length buf div 3) = s1"
    and "buf[length buf div 3 := s1, 2 * (length buf div 3) := s2] ! (2 * (length buf div 3)) = s2"
    and "buf[length buf div 3 := s1, 2 * (length buf div 3) := s2] ! 0 = buf ! 0"
  using assms by (simp_all add: nth_list_update)

text \<open>
  Claim C3, as stated, fails: the kernels store \<open>inner_prod(Ap, Ap)\<close> at offset \<open>B\<close> and
  \<open>inner_prod(p, Ap)\<close> at offset \<open>2B\<close>, not the other way round. On the 1 by 1 matrix
  with the value 5 and \<open>p = [3]\<close> the value at offset \<open>B = 1\<close> is 225, and
  \<open>inner_prod(p, Ap)\<close> is 45.
\<close>

theorem reduction_slot_order_counterexample:
  "pipelined_cg_prod (Compressed \<lparr>cm_size1 = 1, cm_handle = [5], cm_handle1 = [0, 1],
     cm_handle2 = [0]\<rparr>) [3] [0] [7, 8, 9 :: int] = Some ([15], [7, 225, 45]) \<and>
   [7, 225, 45] ! (length [7, 8, 9 :: int] div 3) \<noteq> inner_prod [3] [15 :: int] \<and>
   [7, 225, 45] ! (2 * (length [7, 8, 9 :: int] div 3)) \<noteq> inner_prod [15] [15 :: int]"
  by code_simp

text \<open>
  Claim C3, amended. The three slots at offsets 0, \<open>B\<close>, \<open>2B\<close> hold, in that order,
  \<open>inner_prod(r, r)\<close> of the updated \<open>r\<close> from the vector update, and
  \<open>inner_prod(Ap, Ap)\<close> and \<open>inner_prod(p, Ap)\<close> from the fused product.
\<close>

theorem reduction_slot_order:
  assumes "wf_prod A p Ap buf" and "wf_update result q r Aq buf"
  shows "(\<exists>Ap' buf'. pipelined_cg_prod A p Ap buf = Some (Ap', buf') \<and>
            buf' ! (length buf div 3) = inner_prod Ap' Ap' \<and>
            buf' ! (2 * (length buf div 3)) = inner_prod p Ap')
    \<and> (\<exists>result' q' r' buf'.
          pipelined_cg_vector_update result alpha q r Aq beta buf = Some (result', q', r', buf') \<and>
          buf' ! 0 = inner_prod r' r')"
proof
  have "length (spmv A p) \<le> length p"
    using wf_prod_sizes(2) [OF assms(1)] by (simp add: length_spmv)
  then show "\<exists>Ap' buf'. pipelined_cg_prod A p Ap buf = Some (Ap', buf') \<and>
            buf' ! (length buf div 3) = inner_prod Ap' Ap' \<and>
            buf' ! (2 * (length buf div 3)) = inner_prod p Ap'"
    using pipelined_cg_prod_eq [OF assms(1)]
      reduction_slots(1,2) [OF wf_prod_sizes(3) [OF assms(1)]]
    by (simp add: sum_squares_inner_prod sum_p_Ap_inner_prod)
next
  have sz: "int (length result) < 2 ^ 63" and len: "length q = length result"
    "length r = length result" "length Aq = length result" and buf: "0 < length buf"
    using assms(2) by (auto simp: wf_update_def)
  let ?r' = "map (\<lambda>i. r ! i - alpha * Aq ! i) [0..<length result]"
  have loop: "for_range [0..<length result] (vector_update_body alpha Aq beta) (result, q, r, 0) =
      Some (update_done result alpha q r Aq beta (length result))"
    by (rule vector_update_loop) (simp_all add: len)
  have "sum_squares ?r' = inner_prod ?r' ?r'"
    by (rule sum_squares_inner_prod)
  then show "\<exists>result' q' r' buf'.
          pipelined_cg_vector_update result alpha q r Aq beta buf = Some (result', q', r', buf') \<and>
          buf' ! 0 = inner_prod r' r'"
    using buf loop
    by (simp add: pipelined_cg_vector_update_def long_range_upt [OF sz] update_done_def len
        wr_in_range sum_squares_map)
qed

theorem reduction_slot_order_witness:
  "wf_prod (Compressed \<lparr>cm_size1 = 1, cm_handle = [5], cm_handle1 = [0, 1], cm_handle2 = [0]\<rparr>)
     [3] [0] [7, 8, 9 :: int] \<and>
   wf_update [1, 2] [1, 1] [2, 2] [0, 0] [7, 8, 9 :: int] \<and>
   (\<exists>Ap' buf'. pipelined_cg_prod (Compressed \<lparr>cm_size1 = 1, cm_handle = [5], cm_handle1 = [0, 1],
        cm_handle2 = [0]\<rparr>) [3] [0] [7, 8, 9 :: int] = Some (Ap', buf') \<and>
      buf' ! 1 = inner_prod Ap' Ap' \<and> buf' ! 2 = inner_prod [3] Ap') \<and>
   (\<exists>result' q' r' buf'.
      pipelined_cg_vector_update [1, 2] 1 [1, 1] [2, 2] [0, 0] 0 [7, 8, 9 :: int]
        = Some (result', q', r', buf') \<and> buf' ! 0 = inner_prod r' r')"
proof -
  have h1: "wf_prod (Compressed \<lparr>cm_size1 = 1, cm_handle = [5], cm_handle1 = [0, 1],
      cm_handle2 = [0]\<rparr>) [3] [0] [7, 8, 9 :: int]"
    by code_simp
  have h2: "wf_update [1, 2] [1, 1] [2, 2] [0, 0] [7, 8, 9 :: int]"
    by (simp add: wf_update_def)
  show ?thesis
    using h1 h2 reduction_slot_order [OF h1 h2, of 1 0] by simp
qed

subsection \<open>What a kernel writes to the reduction buffer\<close>

lemma vector_update_frame:
  assumes "pipelined_cg_vector_update result alpha p r Ap beta buf = Some (result', p', r', buf')"
  shows "\<exists>s. buf' = buf[0 := s]"
  using assms
  by (auto simp: pipelined_cg_vector_update_def wr_def Let_def split: Option.bind_splits if_splits)

lemma compressed_frame:
  assumes "pipelined_cg_prod_compressed A p Ap buf = Some (Ap', buf')"
  shows "\<exists>s1 s2. buf' = buf[length buf div 3 := s1, 2 * (length buf div 3) := s2]"
  using assms
  by (auto simp: pipelined_cg_prod_compressed_def wr_def Let_def simp del: upt_Suc
      split: Option.bind_splits if_splits) blast

lemma coordinate_frame:
  assumes "pipelined_cg_prod_coordinate A p Ap buf = Some (Ap', buf')"
  shows "\<exists>s1 s2. buf' = buf[length buf div 3 := s1, 2 * (length buf div 3) := s2]"
  using assms
  by (auto simp: pipelined_cg_prod_coordinate_def wr_def Let_def simp del: upt_Suc
      split: Option.bind_splits if_splits) blast

lemma ell_frame:
  assumes "pipelined_cg_prod_ell A p Ap buf = Some (Ap', buf')"
  shows "\<exists>s1 s2. buf' = buf[length buf div 3 := s1, 2 * (length buf div 3) := s2]"
  using assms
  by (auto simp: pipelined_cg_prod_ell_def wr_def Let_def split: Option.bind_splits if_splits)
    blast

lemma sliced_ell_frame:
  assumes "pipelined_cg_prod_sliced_ell A p Ap buf = Some (Ap', buf')"
  shows "\<exists>s1 s2. buf' = buf[length buf div 3 := s1, 2 * (length buf div 3) := s2]"
  using assms
  by (auto simp: pipelined_cg_prod_sliced_ell_def wr_def Let_def simp del: upt_Suc
      split: Option.bind_splits if_splits) blast

lemma hyb_frame:
  assumes "pipelined_cg_prod_hyb A p Ap buf = Some (Ap', buf')"
  shows "\<exists>s1 s2. buf' = buf[length buf div 3 := s1, 2 * (length buf div 3) := s2]"
  using assms
  by (auto simp: pipelined_cg_prod_hyb_def wr_def Let_def split: Option.bind_splits if_splits)
    blast

lemma pipelined_cg_prod_frame:
  assumes "pipelined_cg_prod A p Ap buf = Some (Ap', buf')"
  shows "\<exists>s1 s2. buf' = buf[length buf div 3 := s1, 2 * (length buf div 3) := s2]"
  using assms
  by (cases A)
    (simp_all add: compressed_frame coordinate_frame ell_frame sliced_ell_frame hyb_frame)

text \<open>
  Claim C8. Let the reduction buffer have length \<open>3 * B\<close> with \<open>B \<ge> 1\<close>, whatever it
  holds. A vector update that returns has changed slot 0 only, so the slots at offsets \<open>B\<close>
  and \<open>2B\<close> keep their contents; a fused product (any layout) that returns has changed the
  slots at offsets \<open>B\<close> and \<open>2B\<close> only, so slot 0 keeps its contents. On well-formed
  inputs both kernels do return.
\<close>

theorem reduction_slots_disjoint:
  assumes "length buf = 3 * B" and "1 \<le> B"
  shows "(pipelined_cg_vector_update result alpha q r Aq beta buf = Some (result', q', r', buf1) \<longrightarrow>
            (\<exists>s. buf1 = buf[0 := s]) \<and> buf1 ! B = buf ! B \<and> buf1 ! (2 * B) = buf ! (2 * B))
    \<and> (pipelined_cg_prod A p Ap buf = Some (Ap', buf2) \<longrightarrow>
            (\<exists>s1 s2. buf2 = buf[B := s1, 2 * B := s2]) \<and> buf2 ! 0 = buf ! 0)
    \<and> (wf_update result q r Aq buf \<longrightarrow>
            (\<exists>result' q' r' s.
               pipelined_cg_vector_update result alpha q r Aq beta buf =
                 Some (result', q', r', buf[0 := s])))
    \<and> (wf_prod A p Ap buf \<longrightarrow>
            (\<exists>Ap' s1 s2. pipelined_cg_prod A p Ap buf = Some (Ap', buf[B := s1, 2 * B := s2])))"
proof (intro conjI impI)
  have B: "length buf div 3 = B"
    using assms by simp
  {
    assume run: "pipelined_cg_vector_update result alpha q r Aq beta buf = Some (result', q', r', buf1)"
    from vector_update_frame [OF run] show "\<exists>s. buf1 = buf[0 := s]" .
    then show "buf1 ! B = buf ! B" "buf1 ! (2 * B) = buf ! (2 * B)"
      using assms by auto
  }
  {
    assume run: "pipelined_cg_prod A p Ap buf = Some (Ap', buf2)"
    from pipelined_cg_prod_frame [OF run] show "\<exists>s1 s2. buf2 = buf[B := s1, 2 * B := s2]"
      by (simp add: B)
    then show "buf2 ! 0 = buf ! 0"
      using assms by auto
  }
  {
    assume wf: "wf_update result q r Aq buf"
    then have sz: "int (length result) < 2 ^ 63" and len: "length q = length result"
      "length r = length result" "length Aq = length result" and buf: "0 < length buf"
      by (auto simp: wf_update_def)
    have "for_range [0..<length result] (vector_update_body alpha Aq beta) (result, q, r, 0) =
        Some (update_done result alpha q r Aq beta (length result))"
      by (rule vector_update_loop) (simp_all add: len)
    then show "\<exists>result' q' r' s.
        pipelined_cg_vector_update result alpha q r Aq beta buf = Some (result', q', r', buf[0 := s])"
      using buf
      by (simp add: pipelined_cg_vector_update_def long_range_upt [OF sz] update_done_def
          wr_in_range) blast
  }
  {
    assume wf: "wf_prod A p Ap buf"
    show "\<exists>Ap' s1 s2. pipelined_cg_prod A p Ap buf = Some (Ap', buf[B := s1, 2 * B := s2])"
      using pipelined_cg_prod_eq [OF wf] by (simp add: B) blast
  }
qed

theorem reduction_slots_disjoint_witness:
  "length [7, 8, 9 :: int] = 3 * 1 \<and> (1 :: nat) \<le> 1 \<and>
   pipelined_cg_vector_update [1, 2] 1 [1, 1] [2, 2] [0, 0] 0 [7, 8, 9 :: int] =
     Some ([2, 3], [2, 2], [2, 2], [8, 8, 9]) \<and>
   [8, 8, 9 :: int] ! 1 = [7, 8, 9] ! 1 \<and> [8, 8, 9 :: int] ! (2 * 1) = [7, 8, 9] ! (2 * 1) \<and>
   pipelined_cg_prod (Sliced_Ell \<lparr>sell_size1 = 1, sell_rows_per_block = 1, sell_handle = [5],
      sell_handle1 = [1, 0], sell_handle2 = [0], sell_handle3 = [0, 1]\<rparr>) [3] [0] [7, 8, 9 :: int]
     = Some ([15], [7, 225, 45]) \<and>
   [7, 225, 45 :: int] ! 0 = [7, 8, 9] ! 0"
proof -
  have h1: "length [7, 8, 9 :: int] = 3 * 1" and h2: "(1 :: nat) \<le> 1"
    by simp_all
  have u: "pipelined_cg_vector_update [1, 2] 1 [1, 1] [2, 2] [0, 0] 0 [7, 8, 9 :: int] =
     Some ([2, 3], [2, 2], [2, 2], [8, 8, 9])"
    by code_simp
  have m: "pipelined_cg_prod (Sliced_Ell \<lparr>sell_size1 = 1, sell_rows_per_block = 1, sell_handle = [5],
      sell_handle1 = [1, 0], sell_handle2 = [0], sell_handle3 = [0, 1]\<rparr>) [3] [0] [7, 8, 9 :: int]
     = Some ([15], [7, 225, 45])"
    by code_simp
  from reduction_slots_disjoint [OF h1 h2, of "[1, 2]" 1 "[1, 1]" "[2, 2]" "[0, 0]" 0
      "[2, 3]" "[2, 2]" "[2, 2]" "[8, 8, 9]"
      "Sliced_Ell \<lparr>sell_size1 = 1, sell_rows_per_block = 1, sell_handle = [5],
         sell_handle1 = [1, 0], sell_handle2 = [0], sell_handle3 = [0, 1]\<rparr>" "[3]" "[0]"
      "[15]" "[7, 225, 45]"] u m
  show ?thesis
    by simp
qed

text \<open>
  Claim C7. On a well-formed coordinate matrix the kernel runs three phases: the flush
  sets every element of \<open>Ap\<close> to zero; the scatter pass over the \<open>nnz\<close> entries leaves in
  \<open>Ap[row]\<close> the sum of \<open>value * p[col]\<close> over exactly the stored entries of that row;
  the reduction pass over the finished \<open>Ap\<close> gives both sums. A row without stored
  entries ends at zero, and the result does not depend on what \<open>Ap\<close> held before.
\<close>

theorem coordinate_phases:
  fixes A :: "'a::comm_ring_1 coordinate_matrix"
  assumes "wf_coordinate A p Ap buf"
  defines "Ap' \<equiv> map (\<lambda>row. sum_list (map (\<lambda>i. coo_handle A ! i * p ! (coo_handle12 A ! (2 * i + 1)))
                      (filter (\<lambda>i. coo_handle12 A ! (2 * i) = row) [0..<coo_nnz A])))
                  [0..<length Ap]"
  shows "coordinate_flush Ap = Some (replicate (length Ap) 0)
    \<and> coordinate_scatter A p (replicate (length Ap) 0) = Some Ap'
    \<and> coordinate_reduce p Ap' = Some (sum_squares Ap', sum_p_Ap p Ap')
    \<and> pipelined_cg_prod_coordinate A p Ap buf =
        Some (Ap', buf[length buf div 3 := sum_squares Ap',
                       2 * (length buf div 3) := sum_p_Ap p Ap'])
    \<and> (\<forall>row < length Ap. (\<forall>i < coo_nnz A. coo_handle12 A ! (2 * i) \<noteq> row) \<longrightarrow> Ap' ! row = 0)"
proof -
  have len: "length Ap = coo_size1 A" and p: "coo_size1 A \<le> length p"
    using assms(1) by (auto simp: wf_coordinate_def)
  have Ap': "Ap' = spmv (Coordinate A) p"
    by (simp add: Ap'_def spmv_def coordinate_row_entries_def spmv_row_def comp_def len)
  have empty: "Ap' ! row = 0" if "row < length Ap" "\<forall>i < coo_nnz A. coo_handle12 A ! (2 * i) \<noteq> row"
    for row
  proof -
    have "filter (\<lambda>i. coo_handle12 A ! (2 * i) = row) [0..<coo_nnz A] = []"
      using that(2) by (simp add: filter_empty_conv)
    then show ?thesis
      using that(1) by (simp add: Ap'_def)
  qed
  have "length Ap' \<le> length p"
    using p by (simp add: Ap' length_spmv)
  then show ?thesis
    using coordinate_flush_eq [of Ap] coordinate_scatter_eq [OF assms(1)]
      coordinate_prod [OF assms(1)] coordinate_reduce_eq [of Ap' p] empty
    by (simp add: Ap' len)
qed

theorem coordinate_phases_witness:
  "wf_coordinate \<lparr>coo_size1 = 3, coo_nnz = 3, coo_handle = [2, 5, 7],
      coo_handle12 = [2, 0, 0, 1, 2, 2]\<rparr> [1, 10, 100] [41, 42, 43] [7, 8, 9 :: int] \<and>
   pipelined_cg_prod_coordinate \<lparr>coo_size1 = 3, coo_nnz = 3, coo_handle = [2, 5, 7],
      coo_handle12 = [2, 0, 0, 1, 2, 2]\<rparr> [1, 10, 100] [41, 42, 43] [7, 8, 9 :: int] =
     Some ([50, 0, 702], [7, 495304, 70250])"
proof -
  have h: "wf_coordinate \<lparr>coo_size1 = 3, coo_nnz = 3, coo_handle = [2, 5, 7],
      coo_handle12 = [2, 0, 0, 1, 2, 2]\<rparr> [1, 10, 100] [41, 42, 43] [7, 8, 9 :: int]"
    by code_simp
  have run: "pipelined_cg_prod_coordinate \<lparr>coo_size1 = 3, coo_nnz = 3, coo_handle = [2, 5, 7],
      coo_handle12 = [2, 0, 0, 1, 2, 2]\<rparr> [1, 10, 100] [41, 42, 43] [7, 8, 9 :: int] =
     Some ([50, 0, 702], [7, 495304, 70250])"
    by code_simp
  show ?thesis
    using h run coordinate_phases [OF h] by simp
qed

text \<open>
  Claim C10. The loop bound of the vector update is the size of \<open>result\<close> alone. When
  \<open>p\<close>, \<open>r\<close> and \<open>Ap\<close> are at least as long as \<open>result\<close> (of size \<open>N\<close>), exactly
  their first \<open>N\<close> elements are read and exactly the first \<open>N\<close> elements of \<open>result\<close>,
  \<open>p\<close> and \<open>r\<close> are written: the elements from \<open>N\<close> on are returned as they were.
  The bound is not lowered to the size of a shorter vector either: when one of \<open>p\<close>,
  \<open>r\<close>, \<open>Ap\<close> is shorter than \<open>result\<close> the loop runs past its end.
\<close>

theorem vector_update_loop_bound:
  assumes "int (length result) < 2 ^ 63" and "1 \<le> length buf"
  shows "(length result \<le> length p \<and> length result \<le> length r \<and> length result \<le> length Ap \<longrightarrow>
            pipelined_cg_vector_update result alpha p r Ap beta buf =
              Some (map (\<lambda>i. result ! i + alpha * p ! i) [0..<length result],
                    map (\<lambda>i. (r ! i - alpha * Ap ! i) + beta * p ! i) [0..<length result]
                      @ drop (length result) p,
                    map (\<lambda>i. r ! i - alpha * Ap ! i) [0..<length result] @ drop (length result) r,
                    buf[0 := sum_list (map (\<lambda>i. (r ! i - alpha * Ap ! i) * (r ! i - alpha * Ap ! i))
                                 [0..<length result])]))
    \<and> (length p < length result \<or> length r < length result \<or> length Ap < length result \<longrightarrow>
            pipelined_cg_vector_update result alpha p r Ap beta buf = None)"
proof (intro conjI impI)
  assume "length result \<le> length p \<and> length result \<le> length r \<and> length result \<le> length Ap"
  then have "for_range [0..<length result] (vector_update_body alpha Ap beta) (result, p, r, 0) =
      Some (update_done result alpha p r Ap beta (length result))"
    by (intro vector_update_loop) simp_all
  then show "pipelined_cg_vector_update result alpha p r Ap beta buf =
              Some (map (\<lambda>i. result ! i + alpha * p ! i) [0..<length result],
                    map (\<lambda>i. (r ! i - alpha * Ap ! i) + beta * p ! i) [0..<length result]
                      @ drop (length result) p,
                    map (\<lambda>i. r ! i - alpha * Ap ! i) [0..<length result] @ drop (length result) r,
                    buf[0 := sum_list (map (\<lambda>i. (r ! i - alpha * Ap ! i) * (r ! i - alpha * Ap ! i))
                                 [0..<length result])])"
    using assms(2)
    by (cases buf)
      (simp_all add: pipelined_cg_vector_update_def long_range_upt [OF assms(1)] update_done_def
        wr_def)
next
  assume short: "length p < length result \<or> length r < length result \<or> length Ap < length result"
  define n where "n = min (length p) (min (length r) (length Ap))"
  have "for_range [0..<length result] (vector_update_body alpha Ap beta) (result, p, r, 0) = None"
  proof (rule vector_update_fault [of n])
    show "n < length result" using short by (auto simp: n_def)
    show "n \<le> length p" "n \<le> length r" "n \<le> length Ap" by (simp_all add: n_def)
    show "n = length p \<or> n = length r \<or> n = length Ap" by (auto simp: n_def min_def)
  qed
  then show "pipelined_cg_vector_update result alpha p r Ap beta buf = None"
    by (simp add: pipelined_cg_vector_update_def long_range_upt [OF assms(1)])
qed

theorem vector_update_loop_bound_witness:
  "int (length [1, 2 :: int]) < 2 ^ 63 \<and> 1 \<le> length [7, 8, 9 :: int] \<and>
   pipelined_cg_vector_update [1, 2] 1 [1, 1, 5] [2, 2, 6, 7] [0, 0, 4] 0 [7, 8, 9 :: int] =
     Some ([2, 3], [2, 2, 5], [2, 2, 6, 7], [8, 8, 9]) \<and>
   pipelined_cg_vector_update [1, 2] 1 [1] [2, 2, 6, 7] [0, 0, 4] 0 [7, 8, 9 :: int] = None"
proof -
  have h1: "int (length [1, 2 :: int]) < 2 ^ 63" and h2: "1 \<le> length [7, 8, 9 :: int]"
    by simp_all
  have e: "[0..<2] = [0, 1]"
    by code_simp
  show ?thesis
    using vector_update_loop_bound [OF h1 h2, of "[1, 1, 5]" "[2, 2, 6, 7]" "[0, 0, 4]" 1 0]
      vector_update_loop_bound [OF h1 h2, of "[1]" "[2, 2, 6, 7]" "[0, 0, 4]" 1 0]
    by (simp add: e)
qed

subsection \<open>Rows of the logical matrix\<close>

lemma wf_row_entries_columns:
  assumes "wf_prod A p Ap buf" "row < size1 A"
  shows "\<forall>e \<in> set (row_entries A row). fst e < length p"
proof (cases A)
  case (Compressed C)
  with assms show ?thesis
    by (auto simp: wf_compressed_def compressed_row_entries_def list_all_upt)
next
  case (Coordinate C)
  with assms show ?thesis
    by (auto simp: wf_coordinate_def coordinate_row_entries_def list_all_upt)
next
  case (Ell E)
  with assms show ?thesis
    by (auto simp: wf_ell_def ell_row_entries_def list_all_upt Let_def)
next
  case (Sliced_Ell S)
  with assms have wf: "wf_sliced_ell S p Ap buf" and row: "row < sell_size1 S"
    by simp_all
  then have pos: "0 < sell_rows_per_block S"
    by (simp add: wf_sliced_ell_def)
  have b: "row div sell_rows_per_block S < sell_size1 S div sell_rows_per_block S + 1"
    using row by (simp add: div_le_mono less_Suc_eq_le)
  have r: "row mod sell_rows_per_block S < sell_rows_per_block S"
    using pos by simp
  show ?thesis
    using wf_sliced_ell_slots(4) [OF wf b _ r] Sliced_Ell
    by (auto simp: sliced_ell_row_entries_def Let_def)
next
  case (Hyb H)
  with assms show ?thesis
    by (auto simp: wf_hyb_def hyb_row_entries_def list_all_upt Let_def)
qed

lemma spmv_nth_by_column:
  assumes "wf_prod A p Ap buf" "row < size1 A"
  shows "spmv A p ! row = sum_list (map (\<lambda>col. entry A row col * p ! col) [0..<length p])"
  using assms(2) spmv_row_by_column [OF wf_row_entries_columns [OF assms], of p]
  by (simp add: spmv_def entry_def)

lemma same_matrix_spmv:
  assumes "wf_prod A1 p Ap1 buf" "wf_prod A2 p Ap2 buf" "same_matrix A1 A2 (length p)"
  shows "spmv A1 p = spmv A2 p"
proof (rule nth_equalityI)
  show "length (spmv A1 p) = length (spmv A2 p)"
    using assms(3) by (simp add: length_spmv same_matrix_def)
next
  fix row assume "row < length (spmv A1 p)"
  then have row: "row < size1 A1" "row < size1 A2"
    using assms(3) by (simp_all add: length_spmv same_matrix_def)
  have "\<And>col. col < length p \<Longrightarrow> entry A1 row col = entry A2 row col"
    using assms(3) row by (simp add: same_matrix_def list_all_upt)
  then have "sum_list (map (\<lambda>col. entry A1 row col * p ! col) [0..<length p]) =
    sum_list (map (\<lambda>col. entry A2 row col * p ! col) [0..<length p])"
    by (intro sum_list_upt_cong) simp
  then show "spmv A1 p ! row = spmv A2 p ! row"
    using spmv_nth_by_column [OF assms(1) row(1)] spmv_nth_by_column [OF assms(2) row(2)]
    by simp
qed

text \<open>
  Claim C2. For a well-formed matrix in any of the five layouts, the fused product returns
  the vector \<open>Ap' = A p\<close>, whatever \<open>Ap\<close> held before: \<open>Ap'\<close> has one element per
  matrix row, and the element of a row is the sum over the columns of the entry of the
  logical matrix times \<open>p[col]\<close>. The returned buffer is the old one with the sum of
  \<open>Ap'[row]\<^sup>2\<close> stored at offset \<open>B\<close> and the sum of \<open>p[row] * Ap'[row]\<close> stored at
  offset \<open>2B\<close>, where \<open>B\<close> is a third of the buffer length. For the 1 by 1 matrix with
  the value 5 and \<open>p = [3]\<close>, every layout gives \<open>Ap = [15]\<close>, 225 and 45, here from
  an \<open>Ap\<close> that held 100 and a buffer that held 7, 8, 9.
\<close>

theorem spmv_reductions:
  assumes "wf_prod A p Ap buf"
  shows "pipelined_cg_prod A p Ap buf =
      Some (spmv A p,
            buf[length buf div 3 := sum_squares (spmv A p),
                2 * (length buf div 3) := sum_p_Ap p (spmv A p)])
    \<and> length (spmv A p) = size1 A
    \<and> (\<forall>row < size1 A.
          spmv A p ! row = sum_list (map (\<lambda>col. entry A row col * p ! col) [0..<length p]))
    \<and> (\<exists>Ap' buf'. pipelined_cg_prod A p Ap buf = Some (Ap', buf') \<and>
          Ap' = spmv A p \<and>
          length Ap' = size1 A \<and>
          buf' ! (length buf div 3) = sum_list (map (\<lambda>row. Ap' ! row * Ap' ! row) [0..<size1 A]) \<and>
          buf' ! (2 * (length buf div 3)) =
            sum_list (map (\<lambda>row. p ! row * Ap' ! row) [0..<size1 A]) \<and>
          (\<forall>j < length buf. j \<noteq> length buf div 3 \<and> j \<noteq> 2 * (length buf div 3) \<longrightarrow>
             buf' ! j = buf ! j))
    \<and> pipelined_cg_prod (Compressed \<lparr>cm_size1 = 1, cm_handle = [5], cm_handle1 = [0, 1],
          cm_handle2 = [0]\<rparr>) [3] [100] [7, 8, 9 :: int] = Some ([15], [7, 225, 45])
    \<and> pipelined_cg_prod (Coordinate \<lparr>coo_size1 = 1, coo_nnz = 1, coo_handle = [5],
          coo_handle12 = [0, 0]\<rparr>) [3] [100] [7, 8, 9 :: int] = Some ([15], [7, 225, 45])
    \<and> pipelined_cg_prod (Ell \<lparr>ell_size1 = 1, ell_internal_size1 = 1, ell_internal_maxnnz = 1,
          ell_handle = [5], ell_handle2 = [0]\<rparr>) [3] [100] [7, 8, 9 :: int]
        = Some ([15], [7, 225, 45])
    \<and> pipelined_cg_prod (Sliced_Ell \<lparr>sell_size1 = 1, sell_rows_per_block = 1, sell_handle = [5],
          sell_handle1 = [1, 0], sell_handle2 = [0], sell_handle3 = [0, 1]\<rparr>) [3] [100]
          [7, 8, 9 :: int]
        = Some ([15], [7, 225, 45])
    \<and> pipelined_cg_prod (Hyb \<lparr>hyb_size1 = 1, hyb_internal_size1 = 1, hyb_internal_ellnnz = 1,
          hyb_handle = [5], hyb_handle2 = [0], hyb_handle3 = [0, 0], hyb_handle4 = [],
          hyb_handle5 = []\<rparr>) [3] [100] [7, 8, 9 :: int] = Some ([15], [7, 225, 45])"
proof (intro conjI)
  note run = pipelined_cg_prod_eq [OF assms]
  note buf = wf_prod_sizes(3) [OF assms]
  show "pipelined_cg_prod A p Ap buf =
      Some (spmv A p,
            buf[length buf div 3 := sum_squares (spmv A p),
                2 * (length buf div 3) := sum_p_Ap p (spmv A p)])"
    by (rule run)
  show "length (spmv A p) = size1 A"
    by (rule length_spmv)
  show "\<forall>row < size1 A.
          spmv A p ! row = sum_list (map (\<lambda>col. entry A row col * p ! col) [0..<length p])"
    using spmv_nth_by_column [OF assms] by simp
  have frame: "\<forall>j < length buf. j \<noteq> length buf div 3 \<and> j \<noteq> 2 * (length buf div 3) \<longrightarrow>
      buf[length buf div 3 := s1, 2 * (length buf div 3) := s2] ! j = buf ! j" for s1 s2 :: 'a
    by simp
  show "\<exists>Ap' buf'. pipelined_cg_prod A p Ap buf = Some (Ap', buf') \<and>
          Ap' = spmv A p \<and>
          length Ap' = size1 A \<and>
          buf' ! (length buf div 3) = sum_list (map (\<lambda>row. Ap' ! row * Ap' ! row) [0..<size1 A]) \<and>
          buf' ! (2 * (length buf div 3)) =
            sum_list (map (\<lambda>row. p ! row * Ap' ! row) [0..<size1 A]) \<and>
          (\<forall>j < length buf. j \<noteq> length buf div 3 \<and> j \<noteq> 2 * (length buf div 3) \<longrightarrow>
             buf' ! j = buf ! j)"
    using run reduction_slots(1,2) [OF buf] frame
    by (simp add: length_spmv sum_squares_def sum_p_Ap_def)
qed code_simp+

theorem spmv_reductions_witness:
  "wf_prod (Coordinate example_coordinate) [1, 10, 100] [41, 42, 43] [7, 8, 9] \<and>
   wf_prod (Compressed \<lparr>cm_size1 = 1, cm_handle = [5], cm_handle1 = [0, 1], cm_handle2 = [0]\<rparr>)
     [3] [100] [7, 8, 9 :: int] \<and>
   pipelined_cg_prod (Coordinate example_coordinate) [1, 10, 100] [41, 42, 43] [7, 8, 9] =
     Some ([301, 400, 765], [7, 835826, 80801]) \<and>
   pipelined_cg_prod (Compressed \<lparr>cm_size1 = 1, cm_handle = [5], cm_handle1 = [0, 1],
     cm_handle2 = [0]\<rparr>) [3] [100] [7, 8, 9 :: int] = Some ([15], [7, 225, 45])"
proof -
  have h: "wf_prod (Coordinate example_coordinate) [1, 10, 100] [41, 42, 43] [7, 8, 9]"
    by code_simp
  have k: "wf_prod (Compressed \<lparr>cm_size1 = 1, cm_handle = [5], cm_handle1 = [0, 1],
      cm_handle2 = [0]\<rparr>) [3] [100] [7, 8, 9 :: int]"
    by code_simp
  have val: "spmv (Coordinate example_coordinate) [1, 10, 100] = [301, 400, 765]"
    "sum_squares [301, 400, 765 :: int] = 835826"
    "sum_p_Ap [1, 10, 100] [301, 400, 765 :: int] = 80801"
    by code_simp+
  have "pipelined_cg_prod (Coordinate example_coordinate) [1, 10, 100] [41, 42, 43] [7, 8, 9] =
     Some ([301, 400, 765], [7, 835826, 80801])"
    using spmv_reductions [OF h, THEN conjunct1] by (simp add: val)
  with h k
    spmv_reductions [OF k, THEN conjunct2, THEN conjunct2, THEN conjunct2, THEN conjunct2,
      THEN conjunct1]
  show ?thesis
    by simp
qed

text \<open>
  Claim C4. Two well-formed matrices, in any two of the five layouts, that denote the same
  logical matrix (the same number of rows and the same entry at every position) give the
  same \<open>Ap\<close> and the same two reduction values for every \<open>p\<close>, in exact arithmetic.
  The returned \<open>Ap\<close> has an element for each of the \<open>M\<close> rows, and each is the product
  of the row of the logical matrix with \<open>p\<close>, whatever \<open>Ap\<close> held before.
\<close>

theorem format_equivalence:
  assumes "wf_prod A1 p Ap1 buf" and "wf_prod A2 p Ap2 buf" and "same_matrix A1 A2 (length p)"
  shows "pipelined_cg_prod A1 p Ap1 buf = pipelined_cg_prod A2 p Ap2 buf
    \<and> (\<exists>Ap' buf'. pipelined_cg_prod A1 p Ap1 buf = Some (Ap', buf') \<and>
          length Ap' = size1 A1 \<and>
          (\<forall>row < size1 A1.
             Ap' ! row = sum_list (map (\<lambda>col. entry A1 row col * p ! col) [0..<length p])) \<and>
          buf' ! (length buf div 3) = sum_squares Ap' \<and>
          buf' ! (2 * (length buf div 3)) = sum_p_Ap p Ap')"
proof
  show "pipelined_cg_prod A1 p Ap1 buf = pipelined_cg_prod A2 p Ap2 buf"
    using pipelined_cg_prod_eq [OF assms(1)] pipelined_cg_prod_eq [OF assms(2)]
      same_matrix_spmv [OF assms]
    by simp
  show "\<exists>Ap' buf'. pipelined_cg_prod A1 p Ap1 buf = Some (Ap', buf') \<and>
          length Ap' = size1 A1 \<and>
          (\<forall>row < size1 A1.
             Ap' ! row = sum_list (map (\<lambda>col. entry A1 row col * p ! col) [0..<length p])) \<and>
          buf' ! (length buf div 3) = sum_squares Ap' \<and>
          buf' ! (2 * (length buf div 3)) = sum_p_Ap p Ap'"
    using pipelined_cg_prod_eq [OF assms(1)] spmv_nth_by_column [OF assms(1)]
      reduction_slots(1,2) [OF wf_prod_sizes(3) [OF assms(1)]]
    by (simp add: length_spmv)
qed

theorem format_equivalence_witness:
  "wf_prod (Compressed example_compressed) [1, 10, 100] [41, 42, 43] [7, 8, 9] \<and>
   wf_prod (Coordinate example_coordinate) [1, 10, 100] [41, 42, 43] [7, 8, 9] \<and>
   wf_prod (Ell example_ell) [1, 10, 100] [41, 42, 43] [7, 8, 9] \<and>
   wf_prod (Sliced_Ell example_sliced_ell) [1, 10, 100] [41, 42, 43] [7, 8, 9] \<and>
   wf_prod (Hyb example_hyb) [1, 10, 100] [41, 42, 43] [7, 8, 9] \<and>
   same_matrix (Compressed example_compressed) (Coordinate example_coordinate) 3 \<and>
   same_matrix (Compressed example_compressed) (Ell example_ell) 3 \<and>
   same_matrix (Compressed example_compressed) (Sliced_Ell example_sliced_ell) 3 \<and>
   same_matrix (Compressed example_compressed) (Hyb example_hyb) 3 \<and>
   pipelined_cg_prod (Compressed example_compressed) [1, 10, 100] [41, 42, 43] [7, 8, 9] =
     Some ([301, 400, 765], [7, 835826, 80801]) \<and>
   pipelined_cg_prod (Coordinate example_coordinate) [1, 10, 100] [41, 42, 43] [7, 8, 9] =
     Some ([301, 400, 765], [7, 835826, 80801]) \<and>
   pipelined_cg_prod (Ell example_ell) [1, 10, 100] [41, 42, 43] [7, 8, 9] =
     Some ([301, 400, 765], [7, 835826, 80801]) \<and>
   pipelined_cg_prod (Sliced_Ell example_sliced_ell) [1, 10, 100] [41, 42, 43] [7, 8, 9] =
     Some ([301, 400, 765], [7, 835826, 80801]) \<and>
   pipelined_cg_prod (Hyb example_hyb) [1, 10, 100] [41, 42, 43] [7, 8, 9] =
     Some ([301, 400, 765], [7, 835826, 80801])"
proof -
  let ?p = "[1, 10, 100 :: int]" and ?Ap = "[41, 42, 43 :: int]" and ?buf = "[7, 8, 9 :: int]"
  have wf: "wf_prod (Compressed example_compressed) ?p ?Ap ?buf"
    "wf_prod (Coordinate example_coordinate) ?p ?Ap ?buf"
    "wf_prod (Ell example_ell) ?p ?Ap ?buf"
    "wf_prod (Sliced_Ell example_sliced_ell) ?p ?Ap ?buf"
    "wf_prod (Hyb example_hyb) ?p ?Ap ?buf"
    by code_simp+
  have same: "same_matrix (Compressed example_compressed) (Coordinate example_coordinate) (length ?p)"
    "same_matrix (Compressed example_compressed) (Ell example_ell) (length ?p)"
    "same_matrix (Compressed example_compressed) (Sliced_Ell example_sliced_ell) (length ?p)"
    "same_matrix (Compressed example_compressed) (Hyb example_hyb) (length ?p)"
    by code_simp+
  have run: "pipelined_cg_prod (Compressed example_compressed) ?p ?Ap ?buf =
     Some ([301, 400, 765], [7, 835826, 80801])"
    by code_simp
  have "pipelined_cg_prod (Coordinate example_coordinate) ?p ?Ap ?buf =
      Some ([301, 400, 765], [7, 835826, 80801])"
    and "pipelined_cg_prod (Ell example_ell) ?p ?Ap ?buf =
      Some ([301, 400, 765], [7, 835826, 80801])"
    and "pipelined_cg_prod (Sliced_Ell example_sliced_ell) ?p ?Ap ?buf =
      Some ([301, 400, 765], [7, 835826, 80801])"
    and "pipelined_cg_prod (Hyb example_hyb) ?p ?Ap ?buf =
      Some ([301, 400, 765], [7, 835826, 80801])"
    unfolding format_equivalence [OF wf(1) wf(2) same(1), THEN conjunct1, symmetric]
      format_equivalence [OF wf(1) wf(3) same(2), THEN conjunct1, symmetric]
      format_equivalence [OF wf(1) wf(4) same(3), THEN conjunct1, symmetric]
      format_equivalence [OF wf(1) wf(5) same(4), THEN conjunct1, symmetric]
    by (rule run)+
  with wf same run show ?thesis
    by (simp add: numeral_3_eq_3)
qed

subsection \<open>Rows beyond the matrix in the sliced ELL kernel\<close>


lemma sliced_ell_write_back_beyond:
  assumes "Ap_size \<le> block_idx * sell_rows_per_block A"
  shows "sliced_ell_write_back A p Ap_size block_idx rv st = Some st"
proof -
  have "for_range [0..<sell_rows_per_block A]
        (\<lambda>row_in_block (Ap_buf, inner_prod_ApAp, inner_prod_pAp).
          let row = block_idx * sell_rows_per_block A + row_in_block in
          if row < Ap_size
          then do {
            row_result \<leftarrow> rd rv row_in_block;
            Ap_buf' \<leftarrow> wr Ap_buf row row_result;
            val_p \<leftarrow> rd p row;
            Some (Ap_buf', inner_prod_ApAp + row_result * row_result,
                  inner_prod_pAp + val_p * row_result)
          }
          else Some (Ap_buf, inner_prod_ApAp, inner_prod_pAp)) st = Some st"
    by (rule for_range_upt_inv [where I = "\<lambda>_. st"]) (use assms in \<open>auto simp: Let_def\<close>)
  then show ?thesis
    by (simp add: sliced_ell_write_back_def Let_def)
qed

lemma for_range_last_fault:
  assumes "\<And>s. body n s = None"
  shows "for_range [0..<n + 1] body s = None"
  using assms by (simp add: for_range_append split: option.splits)

lemma sliced_ell_last_block_fault:
  assumes "\<And>s. sliced_ell_block_body A p (length Ap) (sell_size1 A div sell_rows_per_block A) s = None"
  shows "pipelined_cg_prod_sliced_ell A p Ap buf = None"
  using for_range_last_fault [of "sliced_ell_block_body A p (length Ap)", OF assms]
  by (simp add: pipelined_cg_prod_sliced_ell_def Let_def del: upt_Suc)

lemma sliced_ell_accumulate_no_start:
  assumes "0 < n" "length (sell_handle3 A) \<le> block_idx"
  shows "sliced_ell_accumulate A p block_idx n rv = None"
proof -
  have "[0..<n] = 0 # [1..<n]"
    using assms(1) by (simp add: upt_conv_Cons)
  then show ?thesis
    using assms(2) by (simp add: sliced_ell_accumulate_def rd_out_of_range)
qed



text \<open>
  Claim C9, as stated, fails in one point: the kernel reads \<open>block_start\<close> inside the loop
  over the column slots of a block, so the entry of the extra block is not read when that
  block has no column slots. Below \<open>M = 2\<close> and \<open>rows_per_block = 2\<close>, the extra block
  has index 1 and width 0, \<open>block_start\<close> has no entry at index 1, and the kernel returns.
\<close>

theorem sliced_ell_extra_block_counterexample:
  "sell_rows_per_block example_sliced_ell_exact dvd sell_size1 example_sliced_ell_exact \<and>
   rd (sell_handle3 example_sliced_ell_exact)
     (sell_size1 example_sliced_ell_exact div sell_rows_per_block example_sliced_ell_exact) = None \<and>
   pipelined_cg_prod_sliced_ell example_sliced_ell_exact [1, 10] [41, 42] [7, 8, 9] =
     Some ([31, 40], [7, 2561, 431])"
  by code_simp

text \<open>
  Claim C9, amended. The kernel runs \<open>size1 / rows_per_block + 1\<close> blocks. When \<open>M\<close> is
  a multiple of \<open>rows_per_block\<close>, the last of them holds no row of the matrix: the kernel
  reads its \<open>columns_per_block\<close> entry (it cannot return without one), and reads its
  \<open>block_start\<close> entry if that width is not zero; all its rows fail the test
  \<open>row < Ap.size()\<close>, so its write-back changes nothing, and on a well-formed matrix
  \<open>Ap\<close> and the reductions are those of the \<open>M\<close> rows.
\<close>

theorem sliced_ell_extra_block:
  assumes "0 < sell_rows_per_block A" and "sell_rows_per_block A dvd sell_size1 A"
  shows "(length (sell_handle1 A) \<le> sell_size1 A div sell_rows_per_block A \<longrightarrow>
            pipelined_cg_prod_sliced_ell A p Ap buf = None)
    \<and> (sell_size1 A div sell_rows_per_block A < length (sell_handle1 A) \<and>
        0 < sell_handle1 A ! (sell_size1 A div sell_rows_per_block A) \<and>
        length (sell_handle3 A) \<le> sell_size1 A div sell_rows_per_block A \<longrightarrow>
            pipelined_cg_prod_sliced_ell A p Ap buf = None)
    \<and> (length Ap = sell_size1 A \<longrightarrow>
          (\<forall>rv st. sliced_ell_write_back A p (length Ap)
                     (sell_size1 A div sell_rows_per_block A) rv st = Some st))
    \<and> (wf_sliced_ell A p Ap buf \<longrightarrow>
          pipelined_cg_prod_sliced_ell A p Ap buf =
            Some (spmv (Sliced_Ell A) p,
                  buf[length buf div 3 := sum_squares (spmv (Sliced_Ell A) p),
                      2 * (length buf div 3) := sum_p_Ap p (spmv (Sliced_Ell A) p)]))"
proof (intro conjI impI allI)
  let ?extra = "sell_size1 A div sell_rows_per_block A"
  {
    assume "length (sell_handle1 A) \<le> ?extra"
    then have "sliced_ell_block_body A p (length Ap) ?extra s = None" for s
      by (cases s) (simp add: sliced_ell_block_body_def rd_out_of_range)
    then show "pipelined_cg_prod_sliced_ell A p Ap buf = None"
      by (rule sliced_ell_last_block_fault)
  }
  {
    assume a: "?extra < length (sell_handle1 A) \<and> 0 < sell_handle1 A ! ?extra \<and>
        length (sell_handle3 A) \<le> ?extra"
    have "sliced_ell_block_body A p (length Ap) ?extra s = None" for s
    proof (cases s)
      case (fields rv Ap_buf s1 s2)
      show ?thesis
        using a
        by (simp add: fields sliced_ell_block_body_def rd_in_range zero_fill
            sliced_ell_accumulate_no_start)
    qed
    then show "pipelined_cg_prod_sliced_ell A p Ap buf = None"
      by (rule sliced_ell_last_block_fault)
  }
  {
    fix rv :: "'a list" and st
    assume "length Ap = sell_size1 A"
    then have "length Ap \<le> ?extra * sell_rows_per_block A"
      using assms(2) by simp
    then show "sliced_ell_write_back A p (length Ap) ?extra rv st = Some st"
      by (rule sliced_ell_write_back_beyond)
  }
  {
    assume "wf_sliced_ell A p Ap buf"
    then show "pipelined_cg_prod_sliced_ell A p Ap buf =
            Some (spmv (Sliced_Ell A) p,
                  buf[length buf div 3 := sum_squares (spmv (Sliced_Ell A) p),
                      2 * (length buf div 3) := sum_p_Ap p (spmv (Sliced_Ell A) p)])"
      by (rule sliced_ell_prod)
  }
qed

theorem sliced_ell_extra_block_witness:
  "0 < sell_rows_per_block example_sliced_ell_exact \<and>
   sell_rows_per_block example_sliced_ell_exact dvd sell_size1 example_sliced_ell_exact \<and>
   wf_sliced_ell example_sliced_ell_exact [1, 10] [41, 42] [7, 8, 9] \<and>
   pipelined_cg_prod_sliced_ell example_sliced_ell_exact [1, 10] [41, 42] [7, 8, 9] =
     Some ([31, 40], [7, 2561, 431]) \<and>
   pipelined_cg_prod_sliced_ell (example_sliced_ell_exact\<lparr>sell_handle1 := [2]\<rparr>)
     [1, 10] [41, 42] [7, 8, 9] = None \<and>
   pipelined_cg_prod_sliced_ell (example_sliced_ell_exact\<lparr>sell_handle1 := [2, 1]\<rparr>)
     [1, 10] [41, 42] [7, 8, 9] = None"
proof -
  let ?p = "[1, 10 :: int]" and ?Ap = "[41, 42 :: int]" and ?buf = "[7, 8, 9 :: int]"
  have h1: "0 < sell_rows_per_block example_sliced_ell_exact"
    and h2: "sell_rows_per_block example_sliced_ell_exact dvd sell_size1 example_sliced_ell_exact"
    and g1: "0 < sell_rows_per_block (example_sliced_ell_exact\<lparr>sell_handle1 := [2]\<rparr>)"
    and g2: "sell_rows_per_block (example_sliced_ell_exact\<lparr>sell_handle1 := [2]\<rparr>)
               dvd sell_size1 (example_sliced_ell_exact\<lparr>sell_handle1 := [2]\<rparr>)"
    and k1: "0 < sell_rows_per_block (example_sliced_ell_exact\<lparr>sell_handle1 := [2, 1]\<rparr>)"
    and k2: "sell_rows_per_block (example_sliced_ell_exact\<lparr>sell_handle1 := [2, 1]\<rparr>)
               dvd sell_size1 (example_sliced_ell_exact\<lparr>sell_handle1 := [2, 1]\<rparr>)"
    by (simp_all add: example_sliced_ell_exact_def)
  have wf: "wf_sliced_ell example_sliced_ell_exact ?p ?Ap ?buf"
    by code_simp
  have val: "spmv (Sliced_Ell example_sliced_ell_exact) ?p = [31, 40]"
    "sum_squares [31, 40 :: int] = 2561" "sum_p_Ap ?p [31, 40] = 431"
    by code_simp+
  have run: "pipelined_cg_prod_sliced_ell example_sliced_ell_exact ?p ?Ap ?buf =
     Some ([31, 40], [7, 2561, 431])"
    using sliced_ell_extra_block [OF h1 h2, of ?p ?Ap ?buf] wf by (simp add: val)
  have short: "pipelined_cg_prod_sliced_ell (example_sliced_ell_exact\<lparr>sell_handle1 := [2]\<rparr>)
     ?p ?Ap ?buf = None"
    using sliced_ell_extra_block [OF g1 g2, of ?p ?Ap ?buf]
    by (simp add: example_sliced_ell_exact_def)
  have no_start: "pipelined_cg_prod_sliced_ell (example_sliced_ell_exact\<lparr>sell_handle1 := [2, 1]\<rparr>)
     ?p ?Ap ?buf = None"
    using sliced_ell_extra_block [OF k1 k2, of ?p ?Ap ?buf]
    by (simp add: example_sliced_ell_exact_def)
  from h1 h2 wf run short no_start show ?thesis
    by simp
qed

subsection \<open>Padding slots\<close>

lemma sum_list_zero:
  fixes f :: "'b \<Rightarrow> 'a::monoid_add"
  shows "(\<And>x. x \<in> set xs \<Longrightarrow> f x = 0) \<Longrightarrow> sum_list (map f xs) = 0"
  by (induction xs) auto

lemma sum_squares_zero: "sum_squares (replicate n 0) = 0"
  unfolding sum_squares_def by (rule sum_list_zero) simp

lemma sum_p_Ap_zero: "sum_p_Ap p (replicate n 0) = 0"
  unfolding sum_p_Ap_def by (rule sum_list_zero) simp

lemma spmv_zero:
  assumes "\<And>row. row < size1 A \<Longrightarrow> spmv_row (row_entries A row) p = 0"
  shows "spmv A p = replicate (size1 A) 0"
  using assms by (intro nth_equalityI) (simp_all add: spmv_def)

lemma ell_zero_prod:
  assumes z: "ell_slots_zero A" and len: "length Ap = ell_size1 A" "ell_size1 A \<le> length p"
    "3 \<le> length buf"
  shows "pipelined_cg_prod_ell A p Ap buf =
    Some (replicate (ell_size1 A) 0, buf[length buf div 3 := 0, 2 * (length buf div 3) := 0])"
proof -
  have wf: "wf_ell A p Ap buf"
    using z len by (auto simp: wf_ell_def ell_slots_zero_def list_all_upt Let_def)
  have "ell_row_entries A row = []" if "row < ell_size1 A" for row
    using z that
    by (auto simp: ell_row_entries_def ell_slots_zero_def list_all_upt Let_def filter_empty_conv)
  then have "spmv (Ell A) p = replicate (ell_size1 A) 0"
    using spmv_zero [of "Ell A" p] by (simp add: spmv_row_def)
  then show ?thesis
    using ell_prod [OF wf] by (simp add: sum_squares_zero sum_p_Ap_zero)
qed

lemma hyb_zero_prod:
  assumes z: "hyb_slots_zero A" and wf: "wf_hyb A p Ap buf"
  shows "pipelined_cg_prod_hyb A p Ap buf =
    Some (replicate (hyb_size1 A) 0, buf[length buf div 3 := 0, 2 * (length buf div 3) := 0])"
proof -
  have "spmv_row (hyb_row_entries A row) p = 0" if "row < hyb_size1 A" for row
  proof -
    have ell: "filter (\<lambda>offset. hyb_handle A ! offset \<noteq> 0)
        (map (\<lambda>item_id. row + item_id * hyb_internal_size1 A) [0..<hyb_internal_ellnnz A]) = []"
      using z that by (auto simp: hyb_slots_zero_def list_all_upt Let_def filter_empty_conv)
    have csr: "\<And>i. hyb_handle3 A ! row \<le> i \<Longrightarrow> i < hyb_handle3 A ! (row + 1) \<Longrightarrow>
        hyb_handle5 A ! i = 0"
      using z that by (auto simp: hyb_slots_zero_def list_all_upt)
    have "sum_list (map (\<lambda>i. hyb_handle5 A ! i * p ! (hyb_handle4 A ! i))
        [hyb_handle3 A ! row..<hyb_handle3 A ! (row + 1)]) = 0"
      by (rule sum_list_zero) (use csr in auto)
    then show ?thesis
      by (simp add: hyb_row_entries_def ell spmv_row_def comp_def)
  qed
  then have "spmv (Hyb A) p = replicate (hyb_size1 A) 0"
    using spmv_zero [of "Hyb A" p] by simp
  then show ?thesis
    using hyb_prod [OF wf] by (simp add: sum_squares_zero sum_p_Ap_zero)
qed

lemma ell_part_coords:
  fixes el :: "'a::comm_ring_1 list"
  assumes "\<And>item_id. item_id < nnz \<Longrightarrow> el ! (row + item_id * is1) \<noteq> 0 \<Longrightarrow>
    rd co' (row + item_id * is1) = rd co (row + item_id * is1)"
  shows "for_range [0..<nnz] (\<lambda>item_id sum'. do {
       let offset = row + item_id * is1;
       val \<leftarrow> rd el offset;
       if val \<noteq> 0
       then do {
         c \<leftarrow> rd co' offset;
         x \<leftarrow> rd p c;
         Some (sum' + x * val)
       }
       else Some sum'
     }) acc =
   for_range [0..<nnz] (\<lambda>item_id sum'. do {
       let offset = row + item_id * is1;
       val \<leftarrow> rd el offset;
       if val \<noteq> 0
       then do {
         c \<leftarrow> rd co offset;
         x \<leftarrow> rd p c;
         Some (sum' + x * val)
       }
       else Some sum'
     }) acc"
  by (rule for_range_cong) (use assms in \<open>auto simp: rd_def Let_def\<close>)

lemma ell_prod_coords:
  fixes A :: "'a::comm_ring_1 ell_matrix"
  assumes "\<forall>row < ell_size1 A. \<forall>item_id < ell_internal_maxnnz A.
     ell_handle A ! (row + item_id * ell_internal_size1 A) \<noteq> 0 \<longrightarrow>
     rd coords' (row + item_id * ell_internal_size1 A) =
     rd (ell_handle2 A) (row + item_id * ell_internal_size1 A)"
  shows "pipelined_cg_prod_ell (A\<lparr>ell_handle2 := coords'\<rparr>) p Ap buf = pipelined_cg_prod_ell A p Ap buf"
proof -
  have "for_range [0..<ell_size1 A] (ell_row_body (A\<lparr>ell_handle2 := coords'\<rparr>) p) (Ap, 0, 0) =
        for_range [0..<ell_size1 A] (ell_row_body A p) (Ap, 0, 0)"
  proof (rule for_range_cong)
    fix row and s :: "'a prod_state" assume "row \<in> set [0..<ell_size1 A]"
    then have row: "row < ell_size1 A" by simp
    obtain Ap_buf s1 s2 where s: "s = (Ap_buf, s1, s2)" by (cases s)
    show "ell_row_body (A\<lparr>ell_handle2 := coords'\<rparr>) p row s = ell_row_body A p row s"
      using assms row
      by (simp add: s ell_row_body_def
          ell_part_coords [of "ell_internal_maxnnz A" "ell_handle A" row "ell_internal_size1 A"
            coords' "ell_handle2 A"] cong del: if_weak_cong)
  qed
  then show ?thesis
    by (simp add: pipelined_cg_prod_ell_def)
qed

lemma hyb_prod_coords:
  fixes A :: "'a::comm_ring_1 hyb_matrix"
  assumes "\<forall>row < hyb_size1 A. \<forall>item_id < hyb_internal_ellnnz A.
     hyb_handle A ! (row + item_id * hyb_internal_size1 A) \<noteq> 0 \<longrightarrow>
     rd coords' (row + item_id * hyb_internal_size1 A) =
     rd (hyb_handle2 A) (row + item_id * hyb_internal_size1 A)"
  shows "pipelined_cg_prod_hyb (A\<lparr>hyb_handle2 := coords'\<rparr>) p Ap buf = pipelined_cg_prod_hyb A p Ap buf"
proof -
  have "for_range [0..<hyb_size1 A] (hyb_row_body (A\<lparr>hyb_handle2 := coords'\<rparr>) p) (Ap, 0, 0) =
        for_range [0..<hyb_size1 A] (hyb_row_body A p) (Ap, 0, 0)"
  proof (rule for_range_cong)
    fix row and s :: "'a prod_state" assume "row \<in> set [0..<hyb_size1 A]"
    then have row: "row < hyb_size1 A" by simp
    obtain Ap_buf s1 s2 where s: "s = (Ap_buf, s1, s2)" by (cases s)
    show "hyb_row_body (A\<lparr>hyb_handle2 := coords'\<rparr>) p row s = hyb_row_body A p row s"
      using assms row
      by (simp add: s hyb_row_body_def
          ell_part_coords [of "hyb_internal_ellnnz A" "hyb_handle A" row "hyb_internal_size1 A"
            coords' "hyb_handle2 A"] cong del: if_weak_cong)
  qed
  then show ?thesis
    by (simp add: pipelined_cg_prod_hyb_def)
qed

text \<open>
  Claim C5. In the ELL kernel and in the ELL part of the hybrid kernel the column index of
  a slot is read only after its value was found not to be zero: replacing the column
  indices of the slots that hold zero (by garbage, or by removing them) changes nothing,
  not even whether the kernel returns. For a matrix all of whose slots hold zero the
  kernels return the zero vector and two zero reductions. (The overflow part of a hybrid
  matrix has no zero test, so its column indices must be valid; \<open>wf_hyb\<close> says so.)
\<close>

theorem padding_slots_skipped:
  "(ell_coords_agree A coords' \<longrightarrow>
      pipelined_cg_prod_ell (A\<lparr>ell_handle2 := coords'\<rparr>) p Ap buf = pipelined_cg_prod_ell A p Ap buf)
   \<and> (hyb_coords_agree H hcoords \<longrightarrow>
      pipelined_cg_prod_hyb (H\<lparr>hyb_handle2 := hcoords\<rparr>) p Ap buf = pipelined_cg_prod_hyb H p Ap buf)
   \<and> (ell_slots_zero A \<and> length Ap = ell_size1 A \<and> ell_size1 A \<le> length p \<and> 3 \<le> length buf \<longrightarrow>
      pipelined_cg_prod_ell A p Ap buf =
        Some (replicate (ell_size1 A) 0,
              buf[length buf div 3 := 0, 2 * (length buf div 3) := 0]))
   \<and> (hyb_slots_zero H \<and> wf_hyb H p Ap buf \<longrightarrow>
      pipelined_cg_prod_hyb H p Ap buf =
        Some (replicate (hyb_size1 H) 0,
              buf[length buf div 3 := 0, 2 * (length buf div 3) := 0]))"
proof (intro conjI impI)
  assume "ell_coords_agree A coords'"
  then show "pipelined_cg_prod_ell (A\<lparr>ell_handle2 := coords'\<rparr>) p Ap buf =
      pipelined_cg_prod_ell A p Ap buf"
    by (intro ell_prod_coords) (simp add: ell_coords_agree_def list_all_upt Let_def)
next
  assume "hyb_coords_agree H hcoords"
  then show "pipelined_cg_prod_hyb (H\<lparr>hyb_handle2 := hcoords\<rparr>) p Ap buf =
      pipelined_cg_prod_hyb H p Ap buf"
    by (intro hyb_prod_coords) (simp add: hyb_coords_agree_def list_all_upt Let_def)
next
  assume "ell_slots_zero A \<and> length Ap = ell_size1 A \<and> ell_size1 A \<le> length p \<and> 3 \<le> length buf"
  then show "pipelined_cg_prod_ell A p Ap buf =
        Some (replicate (ell_size1 A) 0,
              buf[length buf div 3 := 0, 2 * (length buf div 3) := 0])"
    by (intro ell_zero_prod) simp_all
next
  assume "hyb_slots_zero H \<and> wf_hyb H p Ap buf"
  then show "pipelined_cg_prod_hyb H p Ap buf =
        Some (replicate (hyb_size1 H) 0,
              buf[length buf div 3 := 0, 2 * (length buf div 3) := 0])"
    by (intro hyb_zero_prod) simp_all
qed

theorem padding_slots_skipped_witness:
  "ell_coords_agree example_ell [0, 2, 0, 5, 2, 6, 1, 7, 8, 9, 2] \<and>
   hyb_coords_agree example_hyb [0, 2, 0, 2, 7, 1] \<and>
   ell_slots_zero example_ell_zero \<and> hyb_slots_zero example_hyb_zero \<and>
   wf_hyb example_hyb_zero [3, 4] [41, 42] [7, 8, 9] \<and>
   pipelined_cg_prod_ell (example_ell\<lparr>ell_handle2 := [0, 2, 0, 5, 2, 6, 1, 7, 8, 9, 2]\<rparr>)
       [1, 10, 100] [41, 42, 43] [7, 8, 9] =
     pipelined_cg_prod_ell example_ell [1, 10, 100] [41, 42, 43] [7, 8, 9] \<and>
   pipelined_cg_prod_hyb (example_hyb\<lparr>hyb_handle2 := [0, 2, 0, 2, 7, 1]\<rparr>)
       [1, 10, 100] [41, 42, 43] [7, 8, 9] =
     pipelined_cg_prod_hyb example_hyb [1, 10, 100] [41, 42, 43] [7, 8, 9] \<and>
   pipelined_cg_prod_ell example_ell_zero [3, 4] [41, 42] [7, 8, 9] = Some ([0, 0], [7, 0, 0]) \<and>
   pipelined_cg_prod_hyb example_hyb_zero [3, 4] [41, 42] [7, 8, 9] = Some ([0, 0], [7, 0, 0])"
proof -
  have a1: "ell_coords_agree example_ell [0, 2, 0, 5, 2, 6, 1, 7, 8, 9, 2]"
    and a2: "hyb_coords_agree example_hyb [0, 2, 0, 2, 7, 1]"
    and z1: "ell_slots_zero example_ell_zero" and z2: "hyb_slots_zero example_hyb_zero"
    and wf: "wf_hyb example_hyb_zero [3, 4] [41, 42] [7, 8, 9]"
    by code_simp+
  have sz: "ell_size1 example_ell_zero = 2" "hyb_size1 example_hyb_zero = 2"
    by (simp_all add: example_ell_zero_def example_hyb_zero_def)
  have r: "replicate 2 (0 :: int) = [0, 0]"
    by code_simp
  from padding_slots_skipped [where A = example_ell and coords' = "[0, 2, 0, 5, 2, 6, 1, 7, 8, 9, 2]"
      and p = "[1, 10, 100]" and Ap = "[41, 42, 43]" and buf = "[7, 8, 9]"
      and H = example_hyb and hcoords = "[0, 2, 0, 2, 7, 1]"]
    padding_slots_skipped [where A = example_ell_zero and p = "[3, 4]" and Ap = "[41, 42]"
      and buf = "[7, 8, 9]" and H = example_hyb_zero]
    a1 a2 z1 z2 wf
  show ?thesis
    by (simp add: sz r)
qed

end
